theory Spec2Isabelle
  imports Main "HOL-Library.AList"
begin

section \<open>Python values\<close>

text \<open>
  Strings are lists of code points; the model covers the code points below 256
  (one \<^typ>\<open>char\<close> per code point).  What \<open>json.loads\<close> returns is a value of
  type \<open>json\<close>; an object keeps its members in insertion order with unique keys, as
  a Python \<open>dict\<close> does.  JSON numbers with a fraction or an exponent (Python
  floats) are outside the model.
\<close>

datatype json =
    JNull
  | JBool bool
  | JInt int
  | JStr string
  | JArr "json list"
  | JObj "(string \<times> json) list"

text \<open>The exceptions the modelled code can raise.\<close>

datatype error =
    BPFtraceError string
  | KeyError
  | TypeError
  | AttributeError
  | ValueError
  | OSError

subsection \<open>Subscript, iteration, addition\<close>

text \<open>\<open>v[k]\<close> for a string \<open>k\<close>: only a \<open>dict\<close> can be indexed by a string.\<close>

fun subscript :: "json \<Rightarrow> string \<Rightarrow> error + json" where
  "subscript (JObj kvs) k = (case map_of kvs k of None \<Rightarrow> Inl KeyError | Some v \<Rightarrow> Inr v)"
| "subscript _ k = Inl TypeError"

text \<open>\<open>d.get(k, default)\<close> on a \<open>dict\<close> with string keys.\<close>

definition get_default :: "(string \<times> json) list \<Rightarrow> string \<Rightarrow> json \<Rightarrow> json" where
  "get_default kvs k d = (case map_of kvs k of None \<Rightarrow> d | Some v \<Rightarrow> v)"

text \<open>
  \<open>iter(v)\<close>: a list gives its elements, a string its one-character strings, a
  \<open>dict\<close> its keys; nothing else is iterable.
\<close>

fun py_iter :: "json \<Rightarrow> error + json list" where
  "py_iter (JArr xs) = Inr xs"
| "py_iter (JStr s) = Inr (map (\<lambda>c. JStr [c]) s)"
| "py_iter (JObj kvs) = Inr (map (\<lambda>kv. JStr (fst kv)) kvs)"
| "py_iter _ = Inl TypeError"

text \<open>\<open>a + b\<close>: strings and lists concatenate, \<open>int\<close> and \<open>bool\<close> add as integers.\<close>

fun as_int :: "json \<Rightarrow> int option" where
  "as_int (JInt i) = Some i"
| "as_int (JBool b) = Some (if b then 1 else 0)"
| "as_int _ = None"

fun py_add :: "json \<Rightarrow> json \<Rightarrow> error + json" where
  "py_add (JStr a) (JStr b) = Inr (JStr (a @ b))"
| "py_add (JArr a) (JArr b) = Inr (JArr (a @ b))"
| "py_add a b =
     (case (as_int a, as_int b) of
        (Some i, Some j) \<Rightarrow> Inr (JInt (i + j))
      | _ \<Rightarrow> Inl TypeError)"

subsection \<open>Dictionaries with hashable keys\<close>

text \<open>
  Lists and dictionaries are unhashable.  \<open>True\<close> and \<open>1\<close> (and \<open>False\<close> and \<open>0\<close>)
  are equal with equal hashes, hence the same key.
\<close>

fun hashable :: "json \<Rightarrow> bool" where
  "hashable (JArr _) = False"
| "hashable (JObj _) = False"
| "hashable _ = True"

fun key_norm :: "json \<Rightarrow> json" where
  "key_norm (JBool b) = JInt (if b then 1 else 0)"
| "key_norm k = k"

fun dict_get :: "(json \<times> json) list \<Rightarrow> json \<Rightarrow> json option" where
  "dict_get [] k = None"
| "dict_get ((k', v) # d) k = (if key_norm k' = key_norm k then Some v else dict_get d k)"

text \<open>\<open>d[k] = v\<close>: an existing key keeps its place and its key object.\<close>

fun dict_set :: "(json \<times> json) list \<Rightarrow> json \<Rightarrow> json \<Rightarrow> (json \<times> json) list" where
  "dict_set [] k v = [(k, v)]"
| "dict_set ((k', v') # d) k v =
     (if key_norm k' = key_norm k then (k', v) # d else (k', v') # dict_set d k v)"

text \<open>\<open>d.update(other)\<close> for a \<open>dict\<close> argument.\<close>

fun dict_merge :: "(json \<times> json) list \<Rightarrow> (string \<times> json) list \<Rightarrow> (json \<times> json) list" where
  "dict_merge d [] = d"
| "dict_merge d ((k, v) # kvs) = dict_merge (dict_set d (JStr k) v) kvs"

text \<open>
  \<open>d.update(other)\<close> for an iterable of pairs: each element is turned into a sequence,
  which must have length two (\<open>ValueError\<close> otherwise) and a hashable first
  component.  The pairs before a failing element stay in the dictionary.
\<close>

fun dict_merge_seq2 :: "(json \<times> json) list \<Rightarrow> json list \<Rightarrow> (json \<times> json) list \<times> error option" where
  "dict_merge_seq2 d [] = (d, None)"
| "dict_merge_seq2 d (item # items) =
     (case py_iter item of
        Inl e \<Rightarrow> (d, Some TypeError)
      | Inr [k, v] \<Rightarrow>
          (if hashable k then dict_merge_seq2 (dict_set d k v) items else (d, Some TypeError))
      | Inr _ \<Rightarrow> (d, Some ValueError))"

definition dict_update :: "(json \<times> json) list \<Rightarrow> json \<Rightarrow> (json \<times> json) list \<times> error option" where
  "dict_update d other =
     (case other of
        JObj kvs \<Rightarrow> (dict_merge d kvs, None)
      | _ \<Rightarrow> (case py_iter other of
                Inl e \<Rightarrow> (d, Some e)
              | Inr items \<Rightarrow> dict_merge_seq2 d items))"

subsection \<open>str() and repr()\<close>

definition ord :: "char \<Rightarrow> nat" where
  "ord c = of_char c"

definition digit_char :: "nat \<Rightarrow> char" where
  "digit_char n = ''0123456789'' ! n"

fun nat_str :: "nat \<Rightarrow> string" where
  "nat_str n = (if n < 10 then [digit_char n] else nat_str (n div 10) @ [digit_char (n mod 10)])"

declare nat_str.simps [simp del]

definition int_str :: "int \<Rightarrow> string" where
  "int_str i = (if i < 0 then CHR ''-'' # nat_str (nat (- i)) else nat_str (nat i))"

definition hex_char :: "nat \<Rightarrow> char" where
  "hex_char n = ''0123456789abcdef'' ! n"

text \<open>Code points below 256 that \<open>str.isprintable\<close> accepts.\<close>

definition printable :: "char \<Rightarrow> bool" where
  "printable c = ((32 \<le> ord c \<and> ord c < 127) \<or> (161 \<le> ord c \<and> ord c \<noteq> 173))"

definition repr_char :: "char \<Rightarrow> char \<Rightarrow> string" where
  "repr_char quote c =
     (if c = quote \<or> c = CHR 0x5C then [CHR 0x5C, c]
      else if c = CHR 0x09 then [CHR 0x5C, CHR ''t'']
      else if c = CHR 0x0A then [CHR 0x5C, CHR ''n'']
      else if c = CHR 0x0D then [CHR 0x5C, CHR ''r'']
      else if printable c then [c]
      else [CHR 0x5C, CHR ''x'', hex_char (ord c div 16), hex_char (ord c mod 16)])"

definition repr_str :: "string \<Rightarrow> string" where
  "repr_str s =
     (let quote = (if CHR 0x27 \<in> set s \<and> CHR 0x22 \<notin> set s then CHR 0x22 else CHR 0x27)
      in [quote] @ concat (map (repr_char quote) s) @ [quote])"

fun str_join :: "string \<Rightarrow> string list \<Rightarrow> string" where
  "str_join sep [] = []"
| "str_join sep [x] = x"
| "str_join sep (x # y # ys) = x @ sep @ str_join sep (y # ys)"

fun py_repr :: "json \<Rightarrow> string" where
  "py_repr JNull = ''None''"
| "py_repr (JBool b) = (if b then ''True'' else ''False'')"
| "py_repr (JInt i) = int_str i"
| "py_repr (JStr s) = repr_str s"
| "py_repr (JArr xs) = ''['' @ str_join '', '' (map py_repr xs) @ '']''"
| "py_repr (JObj kvs) =
     ''{'' @ str_join '', '' (map (\<lambda>kv. repr_str (fst kv) @ '': '' @ py_repr (snd kv)) kvs) @ ''}''"

text \<open>\<open>'{}'.format(v)\<close> is \<open>str(v)\<close>: a string as it is, anything else as its \<open>repr\<close>.\<close>

fun py_str :: "json \<Rightarrow> string" where
  "py_str (JStr s) = s"
| "py_str v = py_repr v"

section \<open>BPFtraceState\<close>

datatype status = Stopped | Starting | Started | Stopping

fun status_str :: "status \<Rightarrow> string" where
  "status_str Stopped = ''stopped''"
| "status_str Starting = ''starting''"
| "status_str Started = ''started''"
| "status_str Stopping = ''stopping''"

text \<open>
  \<open>maps\<close> is a Python dictionary: an association list in insertion order whose
  keys are hashable Python values.  The attribute \<open>output\<close> is the field
  \<open>output_str\<close>.
\<close>

record BPFtraceState =
  status :: status
  pid :: "int option"
  exit_code :: "int option"
  output_str :: string
  probes :: json
  maps :: "(json \<times> json) list"

definition reset :: "BPFtraceState \<Rightarrow> BPFtraceState" where
  "reset st = st\<lparr>pid := None, exit_code := None, output_str := [], probes := JInt 0, maps := []\<rparr>"

text \<open>\<open>BPFtraceState.__init__\<close>: status \<open>'stopped'\<close>, then \<open>reset()\<close>.\<close>

definition BPFtraceState_init :: BPFtraceState where
  "BPFtraceState_init =
     \<lparr>status = Stopped, pid = None, exit_code = None, output_str = [], probes = JInt 0, maps = []\<rparr>"

section \<open>start and stop\<close>

text \<open>
  A call returns the state it leaves behind together with the exception it raised, if
  any: a mutation made before a \<open>raise\<close> stays.  \<open>start\<close> takes the result of
  \<open>subprocess.Popen\<close>: the child's process id, or \<open>None\<close> when spawning raised.
  \<open>stop\<close> takes the child's \<open>returncode\<close> after \<open>communicate()\<close> or \<open>poll()\<close>.
\<close>

definition start :: "int option \<Rightarrow> BPFtraceState \<Rightarrow> BPFtraceState \<times> error option" where
  "start popen st =
     (if status st \<noteq> Stopped
      then (st, Some (BPFtraceError (''cannot start bpftrace, current status: '' @ status_str (status st))))
      else
        let st1 = (reset st)\<lparr>status := Starting\<rparr> in
        (case popen of
           None \<Rightarrow> (st1, Some OSError)
         | Some p \<Rightarrow> (st1\<lparr>pid := Some p\<rparr>, None)))"

definition stop :: "int option \<Rightarrow> BPFtraceState \<Rightarrow> BPFtraceState \<times> error option" where
  "stop returncode st =
     (if status st \<noteq> Started
      then (st, Some (BPFtraceError (''cannot stop bpftrace, current status: '' @ status_str (status st))))
      else
        let st1 = st\<lparr>status := Stopping\<rparr> in
        (st1\<lparr>status := Stopped, exit_code := returncode\<rparr>, None))"

section \<open>process\_output\_obj\<close>

text \<open>
  The dictionary comprehension of the \<open>hist\<close> branch, over the buckets already
  obtained by iterating the value: for each bucket the key expression (two
  \<open>bucket.get\<close> calls, which need a \<open>dict\<close>) is evaluated before the value
  expression \<open>bucket['count']\<close>, as Python 3.8 and later do.
\<close>

fun hist_buckets :: "(string \<times> json) list \<Rightarrow> json list \<Rightarrow> error + (string \<times> json) list" where
  "hist_buckets acc [] = Inr acc"
| "hist_buckets acc (bucket # buckets) =
     (case bucket of
        JObj b \<Rightarrow>
          (let label = py_str (get_default b ''min'' (JStr ''inf'')) @ ''-''
                       @ py_str (get_default b ''max'' (JStr ''inf''))
           in case map_of b ''count'' of
                None \<Rightarrow> Inl KeyError
              | Some c \<Rightarrow> hist_buckets (AList.update label c acc) buckets)
      | _ \<Rightarrow> Inl AttributeError)"

text \<open>The loop \<open>for k, v in obj['data'].items()\<close>.\<close>

fun hist_items :: "BPFtraceState \<Rightarrow> (string \<times> json) list \<Rightarrow> BPFtraceState \<times> error option" where
  "hist_items st [] = (st, None)"
| "hist_items st ((k, v) # kvs) =
     (case py_iter v of
        Inl e \<Rightarrow> (st, Some e)
      | Inr buckets \<Rightarrow>
          (case hist_buckets [] buckets of
             Inl e \<Rightarrow> (st, Some e)
           | Inr d \<Rightarrow> hist_items (st\<lparr>maps := dict_set (maps st) (JStr k) (JObj d)\<rparr>) kvs))"

definition process_output_obj :: "BPFtraceState \<Rightarrow> json \<Rightarrow> BPFtraceState \<times> error option" where
  "process_output_obj st0 obj =
     (let st = (if status st0 = Starting then st0\<lparr>status := Started\<rparr> else st0) in
      case subscript obj ''type'' of
        Inl e \<Rightarrow> (st, Some e)
      | Inr ty \<Rightarrow>
          if ty = JStr ''attached_probes'' then
            (case subscript obj ''probes'' of
               Inl e \<Rightarrow> (st, Some e)
             | Inr p \<Rightarrow> (st\<lparr>probes := p\<rparr>, None))
          else if ty = JStr ''map'' then
            (case subscript obj ''data'' of
               Inl e \<Rightarrow> (st, Some e)
             | Inr data \<Rightarrow>
                 (case dict_update (maps st) data of (m, e) \<Rightarrow> (st\<lparr>maps := m\<rparr>, e)))
          else if ty = JStr ''hist'' then
            (case subscript obj ''data'' of
               Inl e \<Rightarrow> (st, Some e)
             | Inr (JObj kvs) \<Rightarrow> hist_items st kvs
             | Inr _ \<Rightarrow> (st, Some AttributeError))
          else if ty = JStr ''printf'' \<or> ty = JStr ''time'' then
            (let old = (case dict_get (maps st) (JStr ''@printf'') of
                          None \<Rightarrow> JStr [] | Some v \<Rightarrow> v)
             in case subscript obj ''msg'' of
                  Inl e \<Rightarrow> (st, Some e)
                | Inr msg \<Rightarrow>
                    (case py_add old msg of
                       Inl e \<Rightarrow> (st, Some e)
                     | Inr v \<Rightarrow> (st\<lparr>maps := dict_set (maps st) (JStr ''@printf'') v\<rparr>, None)))
          else (st, None))"

section \<open>process\_output\<close>

text \<open>Code points below 256 that \<open>str.isspace\<close> and the pattern \<open>\s\<close> accept.\<close>

definition is_space :: "char \<Rightarrow> bool" where
  "is_space c =
     ((9 \<le> ord c \<and> ord c \<le> 13) \<or> (28 \<le> ord c \<and> ord c \<le> 32) \<or> ord c = 133 \<or> ord c = 160)"

definition isspace :: "string \<Rightarrow> bool" where
  "isspace s = (s \<noteq> [] \<and> list_all is_space s)"

text \<open>
  The loop over the lines of the child's output.  \<open>loads\<close> is \<open>json.loads\<close>, with
  \<open>None\<close> for the \<open>ValueError\<close> it raises on text that is not JSON.  The \<open>except\<close>
  clause catches \<open>ValueError\<close> only, from \<open>json.loads\<close> or from
  \<open>process_output_obj\<close>; any other exception ends the loop and is returned.
\<close>

fun process_output_lines ::
  "(string \<Rightarrow> json option) \<Rightarrow> BPFtraceState \<Rightarrow> string list \<Rightarrow> BPFtraceState \<times> error option" where
  "process_output_lines loads st [] = (st, None)"
| "process_output_lines loads st (line # lines) =
     (if line = [] \<or> isspace line then process_output_lines loads st lines
      else
        (case loads line of
           None \<Rightarrow> process_output_lines loads (st\<lparr>output_str := output_str st @ line\<rparr>) lines
         | Some obj \<Rightarrow>
             (case process_output_obj st obj of
                (st', None) \<Rightarrow> process_output_lines loads st' lines
              | (st', Some ValueError) \<Rightarrow>
                  process_output_lines loads (st'\<lparr>output_str := output_str st' @ line\<rparr>) lines
              | (st', Some e) \<Rightarrow> (st', Some e))))"

text \<open>After the stream has ended: \<open>poll()\<close>, then status \<open>'stopped'\<close> and the exit code.\<close>

definition process_output ::
  "(string \<Rightarrow> json option) \<Rightarrow> int option \<Rightarrow> BPFtraceState \<Rightarrow> string list
     \<Rightarrow> BPFtraceState \<times> error option" where
  "process_output loads returncode st lines =
     (case process_output_lines loads st lines of
        (st', Some e) \<Rightarrow> (st', Some e)
      | (st', None) \<Rightarrow> (st'\<lparr>status := Stopped, exit_code := returncode\<rparr>, None))"

text \<open>
  The text accumulated under the reserved key \<open>'@printf'\<close>: empty while the key is
  absent (the default of \<open>maps.get\<close>), undefined when the key holds a value that is
  not a string.
\<close>

definition console_text :: "BPFtraceState \<Rightarrow> string option" where
  "console_text st =
     (case dict_get (maps st) (JStr ''@printf'') of
        None \<Rightarrow> Some []
      | Some (JStr s) \<Rightarrow> Some s
      | Some _ \<Rightarrow> None)"

subsection \<open>Histogram records as the specification describes them\<close>

text \<open>
  The label of a bucket is \<open>min-max\<close>, with the token \<open>inf\<close> for a bound the bucket
  does not have.  A well-formed series is a list of objects that each have a
  \<open>count\<close>; \<open>label_count\<close> is the pair of a bucket's label and its count.
\<close>

definition bucket_label :: "(string \<times> json) list \<Rightarrow> string" where
  "bucket_label b =
     (case map_of b ''min'' of None \<Rightarrow> ''inf'' | Some v \<Rightarrow> py_str v) @ ''-''
     @ (case map_of b ''max'' of None \<Rightarrow> ''inf'' | Some v \<Rightarrow> py_str v)"

fun wf_bucket :: "json \<Rightarrow> bool" where
  "wf_bucket (JObj b) = (map_of b ''count'' \<noteq> None)"
| "wf_bucket _ = False"

fun wf_series :: "json \<Rightarrow> bool" where
  "wf_series (JArr bs) = list_all wf_bucket bs"
| "wf_series _ = False"

fun label_count :: "json \<Rightarrow> string \<times> json" where
  "label_count (JObj b) =
     (bucket_label b, case map_of b ''count'' of None \<Rightarrow> JNull | Some c \<Rightarrow> c)"
| "label_count _ = ([], JNull)"

section \<open>Regular expressions\<close>

text \<open>
  The patterns of \<open>parse_script\<close> are matched as Python's \<open>re\<close> module matches them:
  by backtracking, alternatives from left to right, a greedy repetition trying one
  more iteration first and a lazy one trying the rest of the pattern first.  A
  position is the character before it (\<open>None\<close> at the start of the string) and the
  text after it.  \<open>match_re r p c k\<close> matches \<open>r\<close> at \<open>p\<close> with the groups \<open>c\<close> captured
  so far and hands the position and groups reached to the rest of the pattern \<open>k\<close>;
  \<open>None\<close> means that this way failed and the caller backtracks.
\<close>

type_synonym pos = "char option \<times> string"
type_synonym caps = "nat \<Rightarrow> string option"

datatype re =
    Chr "char \<Rightarrow> bool"
  | Eps
  | Seq re re
  | Alt re re
  | Star re
  | LazyStar re
  | Group nat re
  | Bol
  | Eol
  | EndS

text \<open>
  \<open>r*\<close> and \<open>r*?\<close>.  Every iteration consumes at least one character, so the number
  of iterations is bounded by the length of the remaining text, which is the fuel.
\<close>

fun star_greedy ::
  "(pos \<Rightarrow> caps \<Rightarrow> (pos \<Rightarrow> caps \<Rightarrow> 'a option) \<Rightarrow> 'a option)
     \<Rightarrow> nat \<Rightarrow> pos \<Rightarrow> caps \<Rightarrow> (pos \<Rightarrow> caps \<Rightarrow> 'a option) \<Rightarrow> 'a option" where
  "star_greedy body 0 p c k = k p c"
| "star_greedy body (Suc n) p c k =
     (case body p c (\<lambda>p' c'. if length (snd p') < length (snd p)
                               then star_greedy body n p' c' k else None) of
        Some x \<Rightarrow> Some x
      | None \<Rightarrow> k p c)"

fun star_lazy ::
  "(pos \<Rightarrow> caps \<Rightarrow> (pos \<Rightarrow> caps \<Rightarrow> 'a option) \<Rightarrow> 'a option)
     \<Rightarrow> nat \<Rightarrow> pos \<Rightarrow> caps \<Rightarrow> (pos \<Rightarrow> caps \<Rightarrow> 'a option) \<Rightarrow> 'a option" where
  "star_lazy body 0 p c k = k p c"
| "star_lazy body (Suc n) p c k =
     (case k p c of
        Some x \<Rightarrow> Some x
      | None \<Rightarrow> body p c (\<lambda>p' c'. if length (snd p') < length (snd p)
                                    then star_lazy body n p' c' k else None))"

text \<open>
  \<open>Bol\<close> and \<open>Eol\<close> are \<open>^\<close> and \<open>$\<close> under \<open>re.MULTILINE\<close>; \<open>EndS\<close> is \<open>$\<close> without
  it (the end of the string, or just before a newline that ends the string).
\<close>

primrec match_re :: "re \<Rightarrow> pos \<Rightarrow> caps \<Rightarrow> (pos \<Rightarrow> caps \<Rightarrow> 'a option) \<Rightarrow> 'a option" where
  "match_re (Chr P) p c k =
     (case snd p of [] \<Rightarrow> None | x # xs \<Rightarrow> if P x then k (Some x, xs) c else None)"
| "match_re Eps p c k = k p c"
| "match_re (Seq r1 r2) p c k = match_re r1 p c (\<lambda>p' c'. match_re r2 p' c' k)"
| "match_re (Alt r1 r2) p c k =
     (case match_re r1 p c k of Some x \<Rightarrow> Some x | None \<Rightarrow> match_re r2 p c k)"
| "match_re (Star r) p c k = star_greedy (match_re r) (length (snd p)) p c k"
| "match_re (LazyStar r) p c k = star_lazy (match_re r) (length (snd p)) p c k"
| "match_re (Group n r) p c k =
     match_re r p c (\<lambda>p' c'. k p' (c'(n \<mapsto> take (length (snd p) - length (snd p')) (snd p))))"
| "match_re Bol p c k = (if fst p = None \<or> fst p = Some CHR 0x0A then k p c else None)"
| "match_re Eol p c k =
     (case snd p of [] \<Rightarrow> k p c | x # xs \<Rightarrow> if x = CHR 0x0A then k p c else None)"
| "match_re EndS p c k = (if snd p = [] \<or> snd p = [CHR 0x0A] then k p c else None)"

text \<open>A match that starts at the given position: where it ends, and its groups.\<close>

definition match_at :: "re \<Rightarrow> pos \<Rightarrow> (pos \<times> caps) option" where
  "match_at r p = match_re r p (\<lambda>n. None) (\<lambda>p' c'. Some (p', c'))"

text \<open>\<open>re.match(r, s)\<close> as a truth value.\<close>

definition re_match :: "re \<Rightarrow> string \<Rightarrow> bool" where
  "re_match r s = (match_at r (None, s) \<noteq> None)"

text \<open>
  The successive matches of \<open>re.finditer\<close>: the leftmost match from the current
  position, then on from where it ended.  (A match of the empty string moves on by one
  character; none of the patterns below can match the empty string.)
\<close>

function finditer :: "re \<Rightarrow> pos \<Rightarrow> caps list" where
  "finditer r (prev, rest) =
     (case match_at r (prev, rest) of
        Some ((prev', rest'), c) \<Rightarrow>
          (if length rest' < length rest then c # finditer r (prev', rest')
           else c # (case rest of [] \<Rightarrow> [] | x # xs \<Rightarrow> finditer r (Some x, xs)))
      | None \<Rightarrow> (case rest of [] \<Rightarrow> [] | x # xs \<Rightarrow> finditer r (Some x, xs)))"
  by pat_completeness auto
termination
  by (relation "measure (\<lambda>(r, prev, rest). length rest)") auto

declare finditer.simps [simp del]

text \<open>A group that took no part in the match reads as the empty string.\<close>

definition grp :: "caps \<Rightarrow> nat \<Rightarrow> string" where
  "grp c n = (case c n of None \<Rightarrow> [] | Some s \<Rightarrow> s)"

text \<open>\<open>re.findall\<close> for a pattern with two and with three groups; \<open>re.search\<close>.\<close>

definition findall2 :: "re \<Rightarrow> string \<Rightarrow> (string \<times> string) list" where
  "findall2 r s = map (\<lambda>c. (grp c 1, grp c 2)) (finditer r (None, s))"

definition findall3 :: "re \<Rightarrow> string \<Rightarrow> (string \<times> string \<times> string) list" where
  "findall3 r s = map (\<lambda>c. (grp c 1, grp c 2, grp c 3)) (finditer r (None, s))"

definition re_search :: "re \<Rightarrow> string \<Rightarrow> bool" where
  "re_search r s = (finditer r (None, s) \<noteq> [])"

subsection \<open>Pattern syntax\<close>

definition lit :: "string \<Rightarrow> re" where
  "lit s = foldr (\<lambda>x r. Seq (Chr (\<lambda>c. c = x)) r) s Eps"

definition seqs :: "re list \<Rightarrow> re" where
  "seqs rs = foldr Seq rs Eps"

definition plus :: "re \<Rightarrow> re" where
  "plus r = Seq r (Star r)"

definition lazy_plus :: "re \<Rightarrow> re" where
  "lazy_plus r = Seq r (LazyStar r)"

definition opt :: "re \<Rightarrow> re" where
  "opt r = Alt r Eps"

text \<open>
  The character classes, for the code points below 256: \<open>.\<close> is anything but a
  newline, \<open>\s\<close> is \<open>is_space\<close>, \<open>\w\<close> is an alphanumeric character of Unicode (which
  includes the letters and digits beyond ASCII) or the underscore.
\<close>

definition is_dot :: "char \<Rightarrow> bool" where
  "is_dot c = (c \<noteq> CHR 0x0A)"

definition is_alnum :: "char \<Rightarrow> bool" where
  "is_alnum c =
     ((48 \<le> ord c \<and> ord c \<le> 57) \<or> (65 \<le> ord c \<and> ord c \<le> 90) \<or> (97 \<le> ord c \<and> ord c \<le> 122)
      \<or> ord c = 170 \<or> ord c = 178 \<or> ord c = 179 \<or> ord c = 181 \<or> ord c = 185 \<or> ord c = 186
      \<or> (188 \<le> ord c \<and> ord c \<le> 190) \<or> (192 \<le> ord c \<and> ord c \<le> 214)
      \<or> (216 \<le> ord c \<and> ord c \<le> 246) \<or> 248 \<le> ord c)"

definition is_word :: "char \<Rightarrow> bool" where
  "is_word c = (is_alnum c \<or> c = CHR ''_'')"

text \<open>The class \<open>[a-zA-Z_]\<close>.\<close>

definition is_name_start :: "char \<Rightarrow> bool" where
  "is_name_start c =
     ((97 \<le> ord c \<and> ord c \<le> 122) \<or> (65 \<le> ord c \<and> ord c \<le> 90) \<or> c = CHR ''_'')"

subsection \<open>The patterns of parse\_script\<close>

text \<open>\<^verbatim>\<open>^// (\w+): (.+)$\<close> with \<open>re.MULTILINE\<close>.\<close>

definition metadata_re :: re where
  "metadata_re = seqs [Bol, lit ''// '', Group 1 (plus (Chr is_word)), lit '': '',
                       Group 2 (plus (Chr is_dot)), Eol]"

text \<open>\<^verbatim>\<open>^[a-zA-Z_]\w+$\<close>, used with \<open>re.match\<close>, which anchors the match at the start.\<close>

definition name_re :: re where
  "name_re = seqs [Chr is_name_start, plus (Chr is_word), EndS]"

text \<open>\<^verbatim>\<open>(@.*?)(\[.+?\])?\s*=\s*(count|hist)?\<close>\<close>

definition variables_re :: re where
  "variables_re =
     seqs [Group 1 (Seq (lit ''@'') (LazyStar (Chr is_dot))),
           opt (Group 2 (seqs [lit ''['', lazy_plus (Chr is_dot), lit '']''])),
           Star (Chr is_space), lit ''='', Star (Chr is_space),
           opt (Group 3 (Alt (lit ''count'') (lit ''hist'')))]"

text \<open>\<^verbatim>\<open>printf\s*\(\<close>\<close>

definition printf_re :: re where
  "printf_re = seqs [lit ''printf'', Star (Chr is_space), lit ''('']"

section \<open>parse\_script\<close>

text \<open>The constants imported from \<open>cpmapi\<close>.\<close>

datatype pm_sem = PM_SEM_INSTANT | PM_SEM_COUNTER

datatype pm_type = PM_TYPE_U64 | PM_TYPE_STRING

record BPFtraceVarDef =
  single :: bool
  semantics :: pm_sem
  data_type :: pm_type

text \<open>
  \<open>self.metadata\<close> has no other keys than \<open>'name'\<close> and \<open>'include'\<close>; \<open>None\<close> is an
  absent key.  \<open>self.var_defs\<close> is a dictionary in insertion order.
\<close>

record metadata =
  md_name :: "string option"
  md_include :: "string list option"

type_synonym var_defs = "(string \<times> BPFtraceVarDef) list"

text \<open>\<open>val.split(',')\<close>\<close>

fun split_on :: "char \<Rightarrow> string \<Rightarrow> string list" where
  "split_on sep [] = [[]]"
| "split_on sep (x # xs) =
     (if x = sep then [] # split_on sep xs
      else (case split_on sep xs of
              [] \<Rightarrow> [[x]]
            | y # ys \<Rightarrow> (x # y) # ys))"

text \<open>The loop over the annotations; an invalid name raises at once.\<close>

fun parse_metadata :: "metadata \<Rightarrow> (string \<times> string) list \<Rightarrow> error + metadata" where
  "parse_metadata md [] = Inr md"
| "parse_metadata md ((key, val) # rest) =
     (if key = ''name'' then
        (if re_match name_re val then parse_metadata (md\<lparr>md_name := Some val\<rparr>) rest
         else Inl (BPFtraceError (''invalid value '' @ [CHR 0x27] @ val @ [CHR 0x27]
                @ '' for script name: must contain only alphanumeric characters and ''
                @ ''start with a letter'')))
      else if key = ''include'' then
        parse_metadata (md\<lparr>md_include := Some (split_on CHR '','' val)\<rparr>) rest
      else parse_metadata md rest)"

text \<open>\<open>'include' in self.metadata and var not in self.metadata['include']\<close>\<close>

definition excluded :: "metadata \<Rightarrow> string \<Rightarrow> bool" where
  "excluded md var = (case md_include md of None \<Rightarrow> False | Some incl \<Rightarrow> var \<notin> set incl)"

text \<open>The descriptor built for one match \<open>(var, key, func)\<close>.\<close>

definition vardef_of :: "string \<Rightarrow> string \<Rightarrow> BPFtraceVarDef" where
  "vardef_of key func =
     (let d0 = \<lparr>single = True, semantics = PM_SEM_INSTANT, data_type = PM_TYPE_U64\<rparr>;
          d1 = (if func = ''hist'' \<or> func = ''lhist''
                then d0\<lparr>single := False, semantics := PM_SEM_COUNTER\<rparr> else d0);
          d2 = (if func = ''count'' then d1\<lparr>semantics := PM_SEM_COUNTER\<rparr> else d1)
      in if key \<noteq> [] then d2\<lparr>single := False\<rparr> else d2)"

text \<open>The loop \<open>for var, key, func in variables\<close>.\<close>

fun collect_vars :: "metadata \<Rightarrow> var_defs \<Rightarrow> (string \<times> string \<times> string) list \<Rightarrow> var_defs" where
  "collect_vars md defs [] = defs"
| "collect_vars md defs ((var, key, func) # rest) =
     (if excluded md var then collect_vars md defs rest
      else collect_vars md (AList.update var (vardef_of key func) defs) rest)"

text \<open>\<open>' interval:s:1 {{ {} }}'.format(' '.join(['print({});'.format(var) ...]))\<close>\<close>

definition interval_clause :: "string list \<Rightarrow> string" where
  "interval_clause vars =
     '' interval:s:1 { '' @ str_join '' '' (map (\<lambda>var. ''print('' @ var @ '');'') vars) @ '' }''"

text \<open>
  Everything after the annotations: the declarations and the rewritten script, for
  the metadata found.
\<close>

definition declarations :: "metadata \<Rightarrow> string \<Rightarrow> var_defs \<times> string" where
  "declarations md script =
     (let variables = findall3 variables_re script;
          defs = (if variables \<noteq> [] then collect_vars md [] variables else []);
          script' = (if variables \<noteq> [] then script @ interval_clause (map fst defs) else script);
          printfs = re_search printf_re script'
      in (if printfs \<and> \<not> excluded md ''@printf''
          then AList.update ''@printf''
                 \<lparr>single = True, semantics = PM_SEM_INSTANT, data_type = PM_TYPE_STRING\<rparr> defs
          else defs,
          script'))"

text \<open>
  \<open>parse_script\<close> as \<open>__init__\<close> calls it, on the script given to the constructor
  and with empty \<open>metadata\<close> and \<open>var_defs\<close>; it returns what it leaves in
  \<open>self.metadata\<close>, \<open>self.var_defs\<close> and \<open>self.script\<close>.
\<close>

definition parse_script :: "string \<Rightarrow> error + (metadata \<times> var_defs \<times> string)" where
  "parse_script script =
     (case parse_metadata \<lparr>md_name = None, md_include = None\<rparr> (findall2 metadata_re script) of
        Inl e \<Rightarrow> Inl e
      | Inr md \<Rightarrow>
          (case declarations md script of
             (defs, script') \<Rightarrow>
               if defs = [] then
                 Inl (BPFtraceError (''no bpftrace variables or printf statements found, please ''
                        @ ''include at least one variable or print statement in your script''))
               else Inr (md, defs, script')))"

subsection \<open>What the properties of parse\_script are stated with\<close>

text \<open>
  The elements of a list in the order of their first occurrence, each once; the script
  variables that the include list keeps, in that order; the values of the
  \<open>include\<close> annotations; the continuation that accepts where \<open>$\<close> does.
\<close>

fun first_occ :: "'a list \<Rightarrow> 'a list" where
  "first_occ [] = []"
| "first_occ (x # xs) = x # filter (\<lambda>y. y \<noteq> x) (first_occ xs)"

definition kept_vars :: "metadata \<Rightarrow> string \<Rightarrow> string list" where
  "kept_vars md script =
     first_occ (filter (\<lambda>var. \<not> excluded md var) (map fst (findall3 variables_re script)))"

definition include_values :: "(string \<times> string) list \<Rightarrow> string list" where
  "include_values metas = map snd (filter (\<lambda>kv. fst kv = ''include'') metas)"

definition at_end :: "pos \<Rightarrow> caps \<Rightarrow> (pos \<times> caps) option" where
  "at_end p c = (if snd p = [] \<or> snd p = [CHR 0x0A] then Some (p, c) else None)"

text \<open>
  The name pattern as the specification writes it, \<^verbatim>\<open>[a-zA-Z_][A-Za-z0-9_]+\<close>, matched
  against the whole value.
\<close>

definition is_ascii_word :: "char \<Rightarrow> bool" where
  "is_ascii_word c =
     ((65 \<le> ord c \<and> ord c \<le> 90) \<or> (97 \<le> ord c \<and> ord c \<le> 122)
      \<or> (48 \<le> ord c \<and> ord c \<le> 57) \<or> c = CHR ''_'')"

definition spec_name_ok :: "string \<Rightarrow> bool" where
  "spec_name_ok v =
     (case v of [] \<Rightarrow> False
      | c # cs \<Rightarrow> is_name_start c \<and> cs \<noteq> [] \<and> list_all is_ascii_word cs)"

section \<open>state(): the state as objects\<close>

text \<open>
  A list or a dictionary is a mutable object with an identity, its address; two
  references are aliases when they lead to the same address.  The values below are
  the decoded JSON values with the address of every list and dictionary written at
  it.  The state holds no mutable object at two places (\<open>json.loads\<close> builds trees,
  and \<open>process_output_obj\<close> stores each part of a record once), so a value is a tree.
\<close>

type_synonym addr = nat

datatype lval =
    LNull
  | LBool bool
  | LInt int
  | LStr string
  | LArr addr "lval list"
  | LObj addr "(string \<times> lval) list"

text \<open>
  The \<open>BPFtraceState\<close> object with its own address, the address of its \<open>maps\<close>
  dictionary, and the addresses inside \<open>probes\<close> and the values of \<open>maps\<close>.
\<close>

record BPFtraceState_obj =
  obj_addr :: addr
  o_status :: status
  o_pid :: "int option"
  o_exit_code :: "int option"
  o_output :: string
  o_probes :: lval
  o_maps_addr :: addr
  o_maps :: "(json \<times> lval) list"

text \<open>The contents without the addresses: the state of the earlier sections.\<close>

fun erase :: "lval \<Rightarrow> json" where
  "erase LNull = JNull"
| "erase (LBool b) = JBool b"
| "erase (LInt i) = JInt i"
| "erase (LStr s) = JStr s"
| "erase (LArr a xs) = JArr (map erase xs)"
| "erase (LObj a kvs) = JObj (map (\<lambda>kv. (fst kv, erase (snd kv))) kvs)"

definition erase_state :: "BPFtraceState_obj \<Rightarrow> BPFtraceState" where
  "erase_state st =
     \<lparr>status = o_status st, pid = o_pid st, exit_code = o_exit_code st,
      output_str = o_output st, probes = erase (o_probes st),
      maps = map (\<lambda>kv. (fst kv, erase (snd kv))) (o_maps st)\<rparr>"

text \<open>The objects a value, and a state, consist of.\<close>

fun addrs :: "lval \<Rightarrow> addr list" where
  "addrs (LArr a xs) = a # concat (map addrs xs)"
| "addrs (LObj a kvs) = a # concat (map (\<lambda>kv. addrs (snd kv)) kvs)"
| "addrs _ = []"

definition state_addrs :: "BPFtraceState_obj \<Rightarrow> addr list" where
  "state_addrs st =
     obj_addr st # o_maps_addr st # addrs (o_probes st)
       @ concat (map (\<lambda>kv. addrs (snd kv)) (o_maps st))"

text \<open>
  \<open>copy.deepcopy\<close>, with the next free address as an argument and a result: a list or a
  dictionary is copied to a new object, first the container and then its elements
  in order; \<open>None\<close>, booleans, integers and strings are returned as they are.  In a
  tree the memo of \<open>deepcopy\<close> never holds the object at hand, so it is left out.
\<close>

fun deepcopy :: "addr \<Rightarrow> lval \<Rightarrow> lval \<times> addr"
  and deepcopy_list :: "addr \<Rightarrow> lval list \<Rightarrow> lval list \<times> addr"
  and deepcopy_items :: "addr \<Rightarrow> (string \<times> lval) list \<Rightarrow> (string \<times> lval) list \<times> addr" where
  "deepcopy n (LArr a xs) = (case deepcopy_list (Suc n) xs of (ys, n') \<Rightarrow> (LArr n ys, n'))"
| "deepcopy n (LObj a kvs) = (case deepcopy_items (Suc n) kvs of (kvs', n') \<Rightarrow> (LObj n kvs', n'))"
| "deepcopy n LNull = (LNull, n)"
| "deepcopy n (LBool b) = (LBool b, n)"
| "deepcopy n (LInt i) = (LInt i, n)"
| "deepcopy n (LStr s) = (LStr s, n)"
| "deepcopy_list n [] = ([], n)"
| "deepcopy_list n (x # xs) =
     (case deepcopy n x of (y, n1) \<Rightarrow>
        (case deepcopy_list n1 xs of (ys, n2) \<Rightarrow> (y # ys, n2)))"
| "deepcopy_items n [] = ([], n)"
| "deepcopy_items n ((k, v) # kvs) =
     (case deepcopy n v of (v', n1) \<Rightarrow>
        (case deepcopy_items n1 kvs of (kvs', n2) \<Rightarrow> ((k, v') # kvs', n2)))"

fun deepcopy_maps :: "addr \<Rightarrow> (json \<times> lval) list \<Rightarrow> (json \<times> lval) list \<times> addr" where
  "deepcopy_maps n [] = ([], n)"
| "deepcopy_maps n ((k, v) # kvs) =
     (case deepcopy n v of (v', n1) \<Rightarrow>
        (case deepcopy_maps n1 kvs of (kvs', n2) \<Rightarrow> ((k, v') # kvs', n2)))"

text \<open>
  \<open>state()\<close>: \<open>deepcopy(self._state)\<close>, a new \<open>BPFtraceState\<close> object whose attributes
  are the deep copies of the attributes, in the order in which they were set.
\<close>

definition state :: "addr \<Rightarrow> BPFtraceState_obj \<Rightarrow> BPFtraceState_obj \<times> addr" where
  "state n st =
     (case deepcopy (Suc n) (o_probes st) of (p, n1) \<Rightarrow>
        (case deepcopy_maps (Suc n1) (o_maps st) of (m, n2) \<Rightarrow>
           (st\<lparr>obj_addr := n, o_probes := p, o_maps_addr := n1, o_maps := m\<rparr>, n2)))"

text \<open>
  A mutation in place changes the object at one address, and every reference that
  leads to this object shows the change.  \<open>assign a new v\<close> is the value \<open>v\<close> after the
  list or dictionary at the address \<open>a\<close> has become \<open>new\<close>.  A mutation is an
  assignment to attributes of the state object at an address, a change of the items
  of the \<open>maps\<close> dictionary at an address, or a change of a nested list or dictionary;
  \<open>apply_mutation mu st\<close> is what the reference \<open>st\<close> shows after it.
\<close>

fun assign :: "addr \<Rightarrow> lval \<Rightarrow> lval \<Rightarrow> lval" where
  "assign a new (LArr b xs) = (if b = a then new else LArr b (map (assign a new) xs))"
| "assign a new (LObj b kvs) =
     (if b = a then new else LObj b (map (\<lambda>kv. (fst kv, assign a new (snd kv))) kvs))"
| "assign a new v = v"

datatype mutation =
    SetAttrs addr BPFtraceState_obj
  | SetItems addr "(json \<times> lval) list"
  | SetObj addr lval

fun mutated :: "mutation \<Rightarrow> addr" where
  "mutated (SetAttrs a new) = a"
| "mutated (SetItems a items) = a"
| "mutated (SetObj a new) = a"

fun apply_mutation :: "mutation \<Rightarrow> BPFtraceState_obj \<Rightarrow> BPFtraceState_obj" where
  "apply_mutation (SetAttrs a new) st = (if obj_addr st = a then new\<lparr>obj_addr := a\<rparr> else st)"
| "apply_mutation (SetItems a items) st =
     (if o_maps_addr st = a then st\<lparr>o_maps := items\<rparr> else st)"
| "apply_mutation (SetObj a new) st =
     st\<lparr>o_probes := assign a new (o_probes st),
        o_maps := map (\<lambda>kv. (fst kv, assign a new (snd kv))) (o_maps st)\<rparr>"

text \<open>A live state with a histogram, its snapshot, and a snapshot after an update.\<close>

definition live_example :: BPFtraceState_obj where
  "live_example =
     \<lparr>obj_addr = 0, o_status = Started, o_pid = Some 4, o_exit_code = None, o_output = [],
      o_probes = LInt 3, o_maps_addr = 1,
      o_maps = [(JStr ''@h'', LObj 2 [(''0-10'', LInt 2)]), (JStr ''@x'', LInt 5)]\<rparr>"

definition snap_example :: BPFtraceState_obj where
  "snap_example =
     \<lparr>obj_addr = 3, o_status = Started, o_pid = Some 4, o_exit_code = None, o_output = [],
      o_probes = LInt 3, o_maps_addr = 4,
      o_maps = [(JStr ''@h'', LObj 5 [(''0-10'', LInt 2)]), (JStr ''@x'', LInt 5)]\<rparr>"

definition snap2_example :: BPFtraceState_obj where
  "snap2_example =
     \<lparr>obj_addr = 6, o_status = Started, o_pid = Some 4, o_exit_code = None, o_output = [],
      o_probes = LInt 3, o_maps_addr = 7,
      o_maps = [(JStr ''@h'', LObj 8 [(''0-10'', LInt 7)]), (JStr ''@x'', LInt 5)]\<rparr>"

section \<open>Lifecycle errors\<close>

text \<open>
  C7. \<open>start()\<close> in any state other than \<open>stopped\<close> and \<open>stop()\<close> in any state
  other than \<open>started\<close> raise \<open>BPFtraceError\<close> and return the state exactly as it
  was (no reset, no status change).  Hence a second \<open>start()\<close> right after a first
  one always raises, and so does \<open>stop()\<close> on a freshly constructed state.
\<close>

theorem start_stop_lifecycle_error:
  "(status st \<noteq> Stopped \<longrightarrow>
      (\<exists>msg. start popen st = (st, Some (BPFtraceError msg))))
   \<and> (status st \<noteq> Started \<longrightarrow>
      (\<exists>msg. stop returncode st = (st, Some (BPFtraceError msg))))
   \<and> (\<exists>msg. start popen2 (fst (start popen st))
          = (fst (start popen st), Some (BPFtraceError msg)))
   \<and> (\<exists>msg. stop returncode BPFtraceState_init
          = (BPFtraceState_init, Some (BPFtraceError msg)))"
  by (simp add: start_def stop_def reset_def BPFtraceState_init_def Let_def split: option.splits)

theorem start_stop_lifecycle_error_witness:
  "status (BPFtraceState_init\<lparr>status := Started\<rparr>) \<noteq> Stopped
   \<and> status BPFtraceState_init \<noteq> Started
   \<and> (\<exists>msg. start (Some 7) (BPFtraceState_init\<lparr>status := Started\<rparr>)
          = (BPFtraceState_init\<lparr>status := Started\<rparr>, Some (BPFtraceError msg)))
   \<and> (\<exists>msg. stop None BPFtraceState_init = (BPFtraceState_init, Some (BPFtraceError msg)))"
  using start_stop_lifecycle_error [of "BPFtraceState_init\<lparr>status := Started\<rparr>" "Some 7" None None]
    start_stop_lifecycle_error [of BPFtraceState_init None None None]
  by (simp add: BPFtraceState_init_def)

section \<open>Ingesting records\<close>

lemma dict_get_dict_set:
  "dict_get (dict_set d k v) k' = (if key_norm k = key_norm k' then Some v else dict_get d k')"
  by (induction d k v rule: dict_set.induct) auto

lemma status_hist_items: "status (fst (hist_items st kvs)) = status st"
  by (induction st kvs rule: hist_items.induct) (auto split: sum.splits)

lemma status_process_output_obj:
  "status (fst (process_output_obj st obj)) = (if status st = Starting then Started else status st)"
  by (auto simp: process_output_obj_def Let_def status_hist_items
      split: sum.splits json.splits prod.splits)

lemma process_attached_probes:
  "process_output_obj st (JObj [(''type'', JStr ''attached_probes''), (''probes'', p)])
   = ((if status st = Starting then st\<lparr>status := Started\<rparr> else st)\<lparr>probes := p\<rparr>, None)"
  by (simp add: process_output_obj_def Let_def)

lemma process_map_single:
  "process_output_obj st (JObj [(''type'', JStr ''map''), (''data'', JObj [(k, v)])])
   = ((if status st = Starting then st\<lparr>status := Started\<rparr> else st)
        \<lparr>maps := dict_set (maps st) (JStr k) v\<rparr>, None)"
  by (simp add: process_output_obj_def Let_def dict_update_def)

text \<open>
  C6. Whatever the decoded record is, \<open>process_output_obj\<close> turns the status
  \<open>starting\<close> into \<open>started\<close> and leaves \<open>started\<close> as it is.  From any state with
  status \<open>starting\<close>, the records \<open>{"type":"attached_probes","probes":3}\<close> and then
  \<open>{"type":"map","data":{"@x":5}}\<close> are both processed without an exception and
  leave status \<open>started\<close>, \<open>probes = 3\<close> and \<open>maps['@x'] = 5\<close>.
\<close>

theorem first_record_starts:
  "(status st = Starting \<longrightarrow> status (fst (process_output_obj st obj)) = Started)
   \<and> (status st = Started \<longrightarrow> status (fst (process_output_obj st obj)) = Started)
   \<and> (status st = Starting \<longrightarrow>
        (let r1 = process_output_obj st
                    (JObj [(''type'', JStr ''attached_probes''), (''probes'', JInt 3)]);
             r2 = process_output_obj (fst r1)
                    (JObj [(''type'', JStr ''map''), (''data'', JObj [(''@x'', JInt 5)])])
         in snd r1 = None \<and> snd r2 = None \<and> status (fst r2) = Started
            \<and> probes (fst r2) = JInt 3
            \<and> dict_get (maps (fst r2)) (JStr ''@x'') = Some (JInt 5)))"
  by (simp add: status_process_output_obj process_attached_probes process_map_single
      Let_def dict_get_dict_set)

theorem first_record_starts_witness:
  "status (BPFtraceState_init\<lparr>status := Starting\<rparr>) = Starting
   \<and> status (fst (process_output_obj (BPFtraceState_init\<lparr>status := Starting\<rparr>) (JInt 5))) = Started
   \<and> status (BPFtraceState_init\<lparr>status := Started\<rparr>) = Started
   \<and> status (fst (process_output_obj (BPFtraceState_init\<lparr>status := Started\<rparr>) JNull)) = Started"
  using first_record_starts [of "BPFtraceState_init\<lparr>status := Starting\<rparr>" "JInt 5"]
    first_record_starts [of "BPFtraceState_init\<lparr>status := Started\<rparr>" JNull]
  by simp

lemma console_text_old:
  "console_text st = Some old \<Longrightarrow>
   (case dict_get (maps st) (JStr ''@printf'') of None \<Rightarrow> JStr [] | Some v \<Rightarrow> v) = JStr old"
  by (cases "dict_get (maps st) (JStr ''@printf'')")
     (simp_all add: console_text_def split: json.splits)

lemma console_text_set:
  "console_text (st\<lparr>maps := dict_set (maps st) (JStr ''@printf'') (JStr s)\<rparr>) = Some s"
  by (simp add: console_text_def dict_get_dict_set)

lemma process_printf:
  assumes "t = ''printf'' \<or> t = ''time''"
    and "map_of kvs ''type'' = Some (JStr t)"
    and "map_of kvs ''msg'' = Some (JStr m)" and "console_text st = Some old"
  shows "process_output_obj st (JObj kvs) =
     ((if status st = Starting then st\<lparr>status := Started\<rparr> else st)
        \<lparr>maps := dict_set (maps st) (JStr ''@printf'') (JStr (old @ m))\<rparr>, None)"
  using assms(1)
proof
  assume "t = ''printf''"
  with assms(2-3) console_text_old [OF assms(4)] show ?thesis
    by (simp add: process_output_obj_def Let_def)
next
  assume "t = ''time''"
  with assms(2-3) console_text_old [OF assms(4)] show ?thesis
    by (simp add: process_output_obj_def Let_def)
qed

lemma printf_appends:
  assumes "map_of kvs ''type'' = Some (JStr t)" and "t = ''printf'' \<or> t = ''time''"
    and "map_of kvs ''msg'' = Some (JStr m)" and "console_text st = Some old"
  shows "snd (process_output_obj st (JObj kvs)) = None"
    and "console_text (fst (process_output_obj st (JObj kvs))) = Some (old @ m)"
  using process_printf [OF assms(2,1,3,4)]
  by (simp_all add: console_text_def dict_get_dict_set)

text \<open>
  C5. A record whose \<open>type\<close> is \<open>printf\<close> or \<open>time\<close> and whose \<open>msg\<close> is a string is
  processed without an exception, and the text under \<open>'@printf'\<close> becomes the text
  accumulated so far followed by \<open>msg\<close>.  Two \<open>printf\<close> records with the messages
  \<open>a\<close> and \<open>b\<close>, processed one after the other from a state with no console text,
  leave the text \<open>ab\<close>.
\<close>

theorem printf_concatenates:
  "(map_of kvs ''type'' = Some (JStr t) \<and> (t = ''printf'' \<or> t = ''time'')
      \<and> map_of kvs ''msg'' = Some (JStr m) \<and> console_text st = Some old
    \<longrightarrow> snd (process_output_obj st (JObj kvs)) = None
        \<and> console_text (fst (process_output_obj st (JObj kvs))) = Some (old @ m))
   \<and> (console_text st = Some [] \<longrightarrow>
        console_text
          (fst (process_output_obj
                 (fst (process_output_obj st (JObj [(''type'', JStr ''printf''), (''msg'', JStr ''a'')])))
                 (JObj [(''type'', JStr ''printf''), (''msg'', JStr ''b'')])))
        = Some ''ab'')"
proof (intro conjI impI)
  assume "map_of kvs ''type'' = Some (JStr t) \<and> (t = ''printf'' \<or> t = ''time'')
      \<and> map_of kvs ''msg'' = Some (JStr m) \<and> console_text st = Some old"
  then show "snd (process_output_obj st (JObj kvs)) = None"
    and "console_text (fst (process_output_obj st (JObj kvs))) = Some (old @ m)"
    using printf_appends [of kvs t m st old] by blast+
next
  assume "console_text st = Some []"
  then have "console_text (fst (process_output_obj st
      (JObj [(''type'', JStr ''printf''), (''msg'', JStr ''a'')]))) = Some ''a''"
    using printf_appends(2) [of "[(''type'', JStr ''printf''), (''msg'', JStr ''a'')]"
        "''printf''" "''a''" st "[]"]
    by simp
  then show "console_text
          (fst (process_output_obj
                 (fst (process_output_obj st (JObj [(''type'', JStr ''printf''), (''msg'', JStr ''a'')])))
                 (JObj [(''type'', JStr ''printf''), (''msg'', JStr ''b'')])))
        = Some ''ab''"
    using printf_appends(2) [of "[(''type'', JStr ''printf''), (''msg'', JStr ''b'')]"
        "''printf''" "''b''" _ "''a''"]
    by simp
qed

theorem printf_concatenates_witness:
  "console_text (BPFtraceState_init\<lparr>maps := [(JStr ''@printf'', JStr ''x'')]\<rparr>) = Some ''x''
   \<and> console_text (fst (process_output_obj
        (BPFtraceState_init\<lparr>maps := [(JStr ''@printf'', JStr ''x'')]\<rparr>)
        (JObj [(''type'', JStr ''time''), (''msg'', JStr ''12:00'')]))) = Some ''x12:00''
   \<and> console_text BPFtraceState_init = Some []
   \<and> console_text
          (fst (process_output_obj
                 (fst (process_output_obj BPFtraceState_init
                        (JObj [(''type'', JStr ''printf''), (''msg'', JStr ''a'')])))
                 (JObj [(''type'', JStr ''printf''), (''msg'', JStr ''b'')])))
        = Some ''ab''"
  using printf_concatenates [of "[(''type'', JStr ''time''), (''msg'', JStr ''12:00'')]" "''time''"
      "''12:00''" "BPFtraceState_init\<lparr>maps := [(JStr ''@printf'', JStr ''x'')]\<rparr>" "''x''"]
    printf_concatenates [of "[]" "[]" "[]" BPFtraceState_init "[]"]
  by (simp add: console_text_def BPFtraceState_init_def)

lemma hist_buckets_wf:
  "list_all wf_bucket bs \<Longrightarrow>
   \<exists>d. hist_buckets acc bs = Inr d \<and> map_of d = map_of acc ++ map_of (rev (map label_count bs))"
proof (induction bs arbitrary: acc)
  case Nil
  then show ?case by simp
next
  case (Cons b bs)
  then obtain kv c where b: "b = JObj kv" "map_of kv ''count'' = Some c"
    by (cases b) auto
  have l: "py_str (get_default kv ''min'' (JStr ''inf'')) @ ''-''
             @ py_str (get_default kv ''max'' (JStr ''inf'')) = bucket_label kv"
    by (simp add: bucket_label_def get_default_def split: option.splits)
  from Cons.prems have "list_all wf_bucket bs" by simp
  from Cons.IH [OF this, of "AList.update (bucket_label kv) c acc"] obtain d where
    d: "hist_buckets (AList.update (bucket_label kv) c acc) bs = Inr d"
    "map_of d = map_of (AList.update (bucket_label kv) c acc) ++ map_of (rev (map label_count bs))"
    by blast
  have "hist_buckets acc (b # bs) = Inr d"
    using b d(1) l by (simp add: Let_def del: py_str.simps)
  moreover have "map_of d = map_of acc ++ map_of (rev (map label_count (b # bs)))"
    using b d(2) by (auto simp: update_conv' fun_eq_iff map_add_def split: option.splits)
  ultimately show ?case by blast
qed

lemma hist_items_other:
  "key_norm k' \<notin> JStr ` fst ` set items \<Longrightarrow>
   dict_get (maps (fst (hist_items st items))) k' = dict_get (maps st) k'"
proof (induction st items rule: hist_items.induct)
  case (1 st)
  then show ?case by simp
next
  case (2 st k v kvs)
  then show ?case
    by (auto simp: dict_get_dict_set split: sum.splits)
qed

lemma hist_items_wf:
  assumes "list_all wf_series (map snd items)" and "distinct (map fst items)"
  shows "snd (hist_items st items) = None
    \<and> (\<forall>k bs. (k, JArr bs) \<in> set items \<longrightarrow>
         (\<exists>d. dict_get (maps (fst (hist_items st items))) (JStr k) = Some (JObj d)
              \<and> map_of d = map_of (rev (map label_count bs))))"
  using assms
proof (induction items arbitrary: st)
  case Nil
  then show ?case by simp
next
  case (Cons kv items)
  obtain k v where kv: "kv = (k, v)" by (cases kv)
  with Cons.prems obtain bs where v: "v = JArr bs" "list_all wf_bucket bs"
    by (cases v) auto
  from hist_buckets_wf [OF v(2), of "[]"] obtain d where d: "hist_buckets [] bs = Inr d"
    "map_of d = map_of (rev (map label_count bs))" by auto
  let ?st = "st\<lparr>maps := dict_set (maps st) (JStr k) (JObj d)\<rparr>"
  have step: "hist_items st (kv # items) = hist_items ?st items"
    using kv v d by simp
  from Cons.prems have p: "list_all wf_series (map snd items)" "distinct (map fst items)"
    "k \<notin> fst ` set items"
    using kv by auto
  note ih = Cons.IH [OF p(1,2), of ?st]
  have here: "dict_get (maps (fst (hist_items ?st items))) (JStr k) = Some (JObj d)"
    using hist_items_other [of "JStr k" items ?st] p(3) by (auto simp: dict_get_dict_set)
  show ?case
    unfolding step
  proof (intro conjI allI impI)
    show "snd (hist_items ?st items) = None" using ih by simp
  next
    fix k' bs'
    assume "(k', JArr bs') \<in> set (kv # items)"
    then consider "k' = k" "bs' = bs" | "(k', JArr bs') \<in> set items"
      using kv v by auto
    then show "\<exists>d. dict_get (maps (fst (hist_items ?st items))) (JStr k') = Some (JObj d)
              \<and> map_of d = map_of (rev (map label_count bs'))"
    proof cases
      case 1
      then show ?thesis using here d(2) by simp
    next
      case 2
      then show ?thesis using ih by blast
    qed
  qed
qed


lemma process_hist:
  assumes "map_of kvs ''type'' = Some (JStr ''hist'')" and "map_of kvs ''data'' = Some (JObj items)"
  shows "process_output_obj st (JObj kvs) =
     hist_items (if status st = Starting then st\<lparr>status := Started\<rparr> else st) items"
  using assms by (simp add: process_output_obj_def Let_def)

text \<open>
  C4 (amended). A \<open>hist\<close> record whose \<open>data\<close> maps each metric name to a list of buckets
  that each have a \<open>count\<close> is processed without an exception, and afterwards each
  named metric holds a dictionary that maps the label \<open>min-max\<close> of a bucket (with
  \<open>inf\<close> for an absent bound) to that bucket's count, the last bucket winning
  where two buckets share a label, and holds no other label.  The record
  \<open>{"type":"hist","data":{"@h":[{"min":0,"max":10,"count":2},{"max":20,"count":1}]}}\<close>
  leaves \<open>maps['@h'] = {"0-10": 2, "inf-20": 1}\<close>.
\<close>

theorem hist_record_buckets:
  "(map_of kvs ''type'' = Some (JStr ''hist'') \<and> map_of kvs ''data'' = Some (JObj items)
      \<and> distinct (map fst items) \<and> list_all wf_series (map snd items)
      \<and> (k, JArr bs) \<in> set items
    \<longrightarrow> snd (process_output_obj st (JObj kvs)) = None
        \<and> (\<exists>d. dict_get (maps (fst (process_output_obj st (JObj kvs)))) (JStr k) = Some (JObj d)
               \<and> map_of d = map_of (rev (map label_count bs))))
   \<and> (let r = process_output_obj st
                 (JObj [(''type'', JStr ''hist''),
                        (''data'', JObj [(''@h'', JArr
                           [JObj [(''min'', JInt 0), (''max'', JInt 10), (''count'', JInt 2)],
                            JObj [(''max'', JInt 20), (''count'', JInt 1)]])])])
       in snd r = None
          \<and> dict_get (maps (fst r)) (JStr ''@h'')
              = Some (JObj [(''0-10'', JInt 2), (''inf-20'', JInt 1)]))"
proof (intro conjI impI)
  assume a: "map_of kvs ''type'' = Some (JStr ''hist'') \<and> map_of kvs ''data'' = Some (JObj items)
      \<and> distinct (map fst items) \<and> list_all wf_series (map snd items)
      \<and> (k, JArr bs) \<in> set items"
  let ?st = "if status st = Starting then st\<lparr>status := Started\<rparr> else st"
  from a have p: "process_output_obj st (JObj kvs) = hist_items ?st items"
    using process_hist by blast
  from a hist_items_wf [of items ?st]
  have w: "snd (hist_items ?st items) = None"
    "\<exists>d. dict_get (maps (fst (hist_items ?st items))) (JStr k) = Some (JObj d)
         \<and> map_of d = map_of (rev (map label_count bs))"
    by blast+
  show "snd (process_output_obj st (JObj kvs)) = None"
    unfolding p by (rule w(1))
  show "\<exists>d. dict_get (maps (fst (process_output_obj st (JObj kvs)))) (JStr k) = Some (JObj d)
         \<and> map_of d = map_of (rev (map label_count bs))"
    unfolding p by (rule w(2))
next
  show "let r = process_output_obj st
                 (JObj [(''type'', JStr ''hist''),
                        (''data'', JObj [(''@h'', JArr
                           [JObj [(''min'', JInt 0), (''max'', JInt 10), (''count'', JInt 2)],
                            JObj [(''max'', JInt 20), (''count'', JInt 1)]])])])
       in snd r = None
          \<and> dict_get (maps (fst r)) (JStr ''@h'')
              = Some (JObj [(''0-10'', JInt 2), (''inf-20'', JInt 1)])"
    by (simp add: process_hist Let_def dict_get_dict_set get_default_def int_str_def
        nat_str.simps digit_char_def)
qed

theorem hist_record_buckets_witness:
  "(let kvs = [(''type'', JStr ''hist''),
               (''data'', JObj [(''@h'', JArr
                   [JObj [(''min'', JInt 0), (''max'', JInt 10), (''count'', JInt 2)],
                    JObj [(''max'', JInt 20), (''count'', JInt 1)]])])];
        items = [(''@h'', JArr
                   [JObj [(''min'', JInt 0), (''max'', JInt 10), (''count'', JInt 2)],
                    JObj [(''max'', JInt 20), (''count'', JInt 1)]])]
    in map_of kvs ''type'' = Some (JStr ''hist'') \<and> map_of kvs ''data'' = Some (JObj items)
       \<and> distinct (map fst items) \<and> list_all wf_series (map snd items)
       \<and> snd (process_output_obj BPFtraceState_init (JObj kvs)) = None
       \<and> (\<exists>d. dict_get (maps (fst (process_output_obj BPFtraceState_init (JObj kvs)))) (JStr ''@h'')
                 = Some (JObj d)
              \<and> map_of d ''0-10'' = Some (JInt 2) \<and> map_of d ''inf-20'' = Some (JInt 1)
              \<and> map_of d ''10-20'' = None))"
  using hist_record_buckets [of
      "[(''type'', JStr ''hist''),
        (''data'', JObj [(''@h'', JArr
            [JObj [(''min'', JInt 0), (''max'', JInt 10), (''count'', JInt 2)],
             JObj [(''max'', JInt 20), (''count'', JInt 1)]])])]"
      "[(''@h'', JArr
            [JObj [(''min'', JInt 0), (''max'', JInt 10), (''count'', JInt 2)],
             JObj [(''max'', JInt 20), (''count'', JInt 1)]])]"
      "''@h''"
      "[JObj [(''min'', JInt 0), (''max'', JInt 10), (''count'', JInt 2)],
        JObj [(''max'', JInt 20), (''count'', JInt 1)]]"
      BPFtraceState_init]
  by (simp add: Let_def bucket_label_def get_default_def int_str_def nat_str.simps digit_char_def)

text \<open>
  The claim for every \<open>hist\<close> record fails.  When the value of a metric is not a
  list of buckets, as in a record that nests the buckets under a key, the dictionary
  comprehension calls \<open>get\<close> on a string and \<open>process_output_obj\<close> raises
  \<open>AttributeError\<close>; when a bucket has no \<open>count\<close> it raises \<open>KeyError\<close>.  In both
  cases the metric is not replaced.
\<close>

theorem keyed_hist_record_raises:
  "process_output_obj (BPFtraceState_init\<lparr>status := Started\<rparr>)
     (JObj [(''type'', JStr ''hist''),
            (''data'', JObj [(''@h'', JObj [(''bash'', JArr
               [JObj [(''min'', JInt 0), (''max'', JInt 1), (''count'', JInt 2)]])])])])
   = (BPFtraceState_init\<lparr>status := Started\<rparr>, Some AttributeError)
   \<and> process_output_obj (BPFtraceState_init\<lparr>status := Started\<rparr>)
     (JObj [(''type'', JStr ''hist''),
            (''data'', JObj [(''@h'', JArr [JObj [(''min'', JInt 0), (''max'', JInt 1)]])])])
   = (BPFtraceState_init\<lparr>status := Started\<rparr>, Some KeyError)
   \<and> dict_get (maps (BPFtraceState_init\<lparr>status := Started\<rparr>)) (JStr ''@h'') = None"
  by (simp add: process_output_obj_def Let_def BPFtraceState_init_def)

section \<open>Lines that are not records\<close>

text \<open>
  C2. A line that \<open>json.loads\<close> rejects is appended verbatim to \<open>output\<close>, with the
  status and \<open>maps\<close> as they were, and the loop goes on with the next line.  A line
  that is valid JSON but not a record is different: for the line \<open>5\<close>, from status
  \<open>starting\<close>, \<open>process_output\<close> sets the status to \<open>started\<close>, raises
  \<open>TypeError\<close>, never reads the next line, appends nothing to \<open>output\<close> and never
  sets the status \<open>stopped\<close>.
\<close>

theorem non_record_line_aborts:
  "(line \<noteq> [] \<and> \<not> isspace line \<and> loads line = None \<longrightarrow>
      process_output_lines loads st (line # lines)
        = process_output_lines loads (st\<lparr>output_str := output_str st @ line\<rparr>) lines)
   \<and> (loads ''5\<newline>'' = Some (JInt 5) \<longrightarrow>
        process_output loads returncode (BPFtraceState_init\<lparr>status := Starting\<rparr>)
            [''5\<newline>'', ''lost\<newline>'']
          = (BPFtraceState_init\<lparr>status := Started\<rparr>, Some TypeError))"
  by (simp add: process_output_def process_output_obj_def isspace_def is_space_def ord_def Let_def)

theorem non_record_line_aborts_witness:
  "''oops\<newline>'' \<noteq> [] \<and> \<not> isspace ''oops\<newline>''
   \<and> (\<lambda>l. if l = ''5\<newline>'' then Some (JInt 5) else None) ''oops\<newline>'' = None
   \<and> (\<lambda>l. if l = ''5\<newline>'' then Some (JInt 5) else None) ''5\<newline>'' = Some (JInt 5)
   \<and> process_output_lines (\<lambda>l. if l = ''5\<newline>'' then Some (JInt 5) else None)
        BPFtraceState_init [''oops\<newline>'']
        = (BPFtraceState_init\<lparr>output_str := ''oops\<newline>''\<rparr>, None)
   \<and> process_output (\<lambda>l. if l = ''5\<newline>'' then Some (JInt 5) else None) (Some 0)
        (BPFtraceState_init\<lparr>status := Starting\<rparr>) [''5\<newline>'', ''lost\<newline>'']
        = (BPFtraceState_init\<lparr>status := Started\<rparr>, Some TypeError)"
  using non_record_line_aborts [of "''oops\<newline>''"
      "\<lambda>l. if l = ''5\<newline>'' then Some (JInt 5) else None" BPFtraceState_init "[]" "Some 0"]
  by (simp add: isspace_def is_space_def ord_def BPFtraceState_init_def)

section \<open>Script analysis\<close>

subsection \<open>Evaluation\<close>

lemmas re_eval = findall3_def findall2_def variables_re_def metadata_re_def name_re_def printf_re_def
  finditer.simps match_at_def seqs_def lit_def opt_def re_match_def re_search_def
  lazy_plus_def plus_def is_dot_def is_space_def is_word_def is_alnum_def is_name_start_def
  ord_def grp_def

lemmas parse_eval = parse_script_def declarations_def excluded_def vardef_of_def
  interval_clause_def kept_vars_def include_values_def Let_def

text \<open>
  C1. The pattern for declarations captures only \<open>count\<close> and \<open>hist\<close> as the
  aggregation function, so the test \<open>func in ['hist', 'lhist']\<close> never sees
  \<open>lhist\<close>: for the script \<open>@x = lhist(1, 0, 10, 1);\<close> analysis declares \<open>@x\<close> as a
  scalar with INSTANT semantics, not as a non-scalar COUNTER.
\<close>

theorem lhist_is_not_recognised:
  "parse_script ''@x = lhist(1, 0, 10, 1);'' =
     Inr (\<lparr>md_name = None, md_include = None\<rparr>,
          [(''@x'', \<lparr>single = True, semantics = PM_SEM_INSTANT, data_type = PM_TYPE_U64\<rparr>)],
          ''@x = lhist(1, 0, 10, 1); interval:s:1 { print(@x); }'')"
  by (simp add: parse_eval re_eval)

lemma set_first_occ: "set (first_occ xs) = set xs"
  by (induction xs) auto

lemma distinct_first_occ: "distinct (first_occ xs)"
  by (induction xs) (auto simp: set_first_occ)

lemma keys_collect_vars:
  "map fst (collect_vars md defs vars) =
     map fst defs @ filter (\<lambda>v. v \<notin> fst ` set defs)
                      (first_occ (filter (\<lambda>var. \<not> excluded md var) (map fst vars)))"
proof (induction md defs vars rule: collect_vars.induct)
  case (1 md defs)
  then show ?case by simp
next
  case (2 md defs var key func rest)
  show ?case
  proof (cases "excluded md var")
    case True
    with 2 show ?thesis by simp
  next
    case False
    have k: "fst ` set (AList.update var (vardef_of key func) defs) = insert var (fst ` set defs)"
      by (simp add: update_conv' flip: dom_map_of_conv_image_fst)
    have f: "\<And>zs. filter (\<lambda>v. v \<notin> insert var (fst ` set defs)) zs
        = filter (\<lambda>v. v \<notin> fst ` set defs) (filter (\<lambda>y. y \<noteq> var) zs)"
      by (induct_tac zs) auto
    from False 2 show ?thesis
      by (auto simp: update_keys k f)
  qed
qed


lemma keys_update_subset:
  "fst ` set (AList.update k v al) = insert k (fst ` set al)"
  by (simp add: update_conv' flip: dom_map_of_conv_image_fst)

lemma keys_collect_vars_empty:
  "map fst (collect_vars md [] (findall3 variables_re s)) = kept_vars md s"
  by (simp add: keys_collect_vars kept_vars_def)

lemma keys_declarations:
  assumes "findall3 variables_re s \<noteq> []"
  shows "snd (declarations md s) = s @ interval_clause (kept_vars md s)"
    and "set (kept_vars md s) \<subseteq> fst ` set (fst (declarations md s))"
    and "fst ` set (fst (declarations md s)) \<subseteq> insert ''@printf'' (set (kept_vars md s))"
    and "''@printf'' \<in> fst ` set (fst (declarations md s)) \<Longrightarrow> \<not> excluded md ''@printf''"
proof -
  let ?c = "collect_vars md [] (findall3 variables_re s)"
  have k: "fst ` set ?c = set (kept_vars md s)"
    using keys_collect_vars_empty [of md s] by (metis list.set_map)
  show "snd (declarations md s) = s @ interval_clause (kept_vars md s)"
    using assms by (simp add: declarations_def Let_def keys_collect_vars_empty)
  show "set (kept_vars md s) \<subseteq> fst ` set (fst (declarations md s))"
    using assms k by (auto simp: declarations_def Let_def keys_update_subset)
  show "fst ` set (fst (declarations md s)) \<subseteq> insert ''@printf'' (set (kept_vars md s))"
    using assms k by (auto simp: declarations_def Let_def keys_update_subset)
  show "''@printf'' \<in> fst ` set (fst (declarations md s)) \<Longrightarrow> \<not> excluded md ''@printf''"
    using assms k
    by (auto simp: declarations_def Let_def keys_update_subset kept_vars_def set_first_occ
        split: if_splits)
qed

lemma parse_script_Inr:
  "parse_script s = Inr (md, defs, s') \<longleftrightarrow>
     parse_metadata \<lparr>md_name = None, md_include = None\<rparr> (findall2 metadata_re s) = Inr md
     \<and> declarations md s = (defs, s') \<and> defs \<noteq> []"
  by (auto simp: parse_script_def split: sum.splits prod.splits)

text \<open>
  C3 (amended). When no name annotation is invalid and the script has a recognized
  metric declaration that the include list, if there is one, does not exclude, then
  analysis succeeds with a non-empty declaration set, and the rewritten script is the
  original followed by \<open> interval:s:1 { ... }\<close> whose body is one \<open>print(v);\<close> for
  each script variable kept by the include list, each exactly once, in the order of
  first declaration.  Every printed variable is declared, and the only declaration
  that may not be printed is the console-text metric \<open>@printf\<close>.
\<close>

theorem interval_clause_prints_kept_vars:
  "parse_metadata \<lparr>md_name = None, md_include = None\<rparr> (findall2 metadata_re s) = Inr md
   \<and> (var, key, func) \<in> set (findall3 variables_re s) \<and> \<not> excluded md var
   \<longrightarrow> (\<exists>defs. parse_script s = Inr (md, defs, s @ interval_clause (kept_vars md s))
          \<and> defs \<noteq> []
          \<and> var \<in> set (kept_vars md s)
          \<and> distinct (kept_vars md s)
          \<and> set (kept_vars md s) \<subseteq> fst ` set defs
          \<and> fst ` set defs \<subseteq> insert ''@printf'' (set (kept_vars md s)))"
proof (intro impI, elim conjE)
  assume md: "parse_metadata \<lparr>md_name = None, md_include = None\<rparr> (findall2 metadata_re s) = Inr md"
    and v: "(var, key, func) \<in> set (findall3 variables_re s)" and ex: "\<not> excluded md var"
  from v have ne: "findall3 variables_re s \<noteq> []" by auto
  have kv: "var \<in> set (kept_vars md s)"
    using v ex by (force simp: kept_vars_def set_first_occ)
  note kd = keys_declarations [OF ne, of md]
  obtain defs s' where d: "declarations md s = (defs, s')" by (cases "declarations md s")
  with kd have s': "s' = s @ interval_clause (kept_vars md s)"
    and sub: "set (kept_vars md s) \<subseteq> fst ` set defs"
    "fst ` set defs \<subseteq> insert ''@printf'' (set (kept_vars md s))"
    by simp_all
  from kv sub have "defs \<noteq> []" by auto
  with md d s' have "parse_script s = Inr (md, defs, s @ interval_clause (kept_vars md s))"
    by (simp add: parse_script_Inr)
  with \<open>defs \<noteq> []\<close> kv sub show "\<exists>defs. parse_script s = Inr (md, defs, s @ interval_clause (kept_vars md s))
          \<and> defs \<noteq> []
          \<and> var \<in> set (kept_vars md s)
          \<and> distinct (kept_vars md s)
          \<and> set (kept_vars md s) \<subseteq> fst ` set defs
          \<and> fst ` set defs \<subseteq> insert ''@printf'' (set (kept_vars md s))"
    by (auto simp: kept_vars_def distinct_first_occ)
qed


lemma split_on_not_Nil: "split_on sep s \<noteq> []"
  by (induction s) (auto split: list.splits)

lemma join_split_on: "str_join [sep] (split_on sep s) = s"
proof (induction s)
  case Nil
  then show ?case by simp
next
  case (Cons x xs)
  obtain y ys where y: "split_on sep xs = y # ys"
    using split_on_not_Nil [of sep xs] by (cases "split_on sep xs") auto
  with Cons show ?case by (cases ys) auto
qed

lemma split_on_no_sep: "list_all (\<lambda>e. sep \<notin> set e) (split_on sep s)"
  by (induction s) (auto split: list.splits)

lemma parse_metadata_include:
  "parse_metadata md0 metas = Inr md \<Longrightarrow>
   md_include md = (if include_values metas = [] then md_include md0
                    else Some (split_on CHR '','' (last (include_values metas))))"
proof (induction md0 metas rule: parse_metadata.induct)
  case (1 md)
  then show ?case by (simp add: include_values_def)
next
  case (2 md0 key val rest)
  then show ?case
    by (auto simp: include_values_def split: if_splits)
qed

theorem interval_clause_prints_kept_vars_witness:
  "parse_metadata \<lparr>md_name = None, md_include = None\<rparr>
       (findall2 metadata_re ''@x = count(); @y = hist(1); @x = 2;'')
     = Inr \<lparr>md_name = None, md_include = None\<rparr>
   \<and> (''@y'', [], ''hist'') \<in> set (findall3 variables_re ''@x = count(); @y = hist(1); @x = 2;'')
   \<and> \<not> excluded \<lparr>md_name = None, md_include = None\<rparr> ''@y''
   \<and> kept_vars \<lparr>md_name = None, md_include = None\<rparr> ''@x = count(); @y = hist(1); @x = 2;''
       = [''@x'', ''@y'']
   \<and> (\<exists>defs. parse_script ''@x = count(); @y = hist(1); @x = 2;''
         = Inr (\<lparr>md_name = None, md_include = None\<rparr>, defs,
                ''@x = count(); @y = hist(1); @x = 2; interval:s:1 { print(@x); print(@y); }'')
        \<and> defs \<noteq> [])"
  using interval_clause_prints_kept_vars [of "''@x = count(); @y = hist(1); @x = 2;''"
      "\<lparr>md_name = None, md_include = None\<rparr>" "''@y''" "[]" "''hist''"]
  by (simp add: parse_eval re_eval)

text \<open>
  The claim without the amendment fails: this script has a recognized declaration,
  which the include list excludes, and analysis raises.
\<close>

theorem include_can_exclude_every_declaration:
  "findall3 variables_re ''// include: @y\<newline>@x = count();'' = [(''@x'', [], ''count'')]
   \<and> parse_script ''// include: @y\<newline>@x = count();''
       = Inl (BPFtraceError (''no bpftrace variables or printf statements found, please ''
                @ ''include at least one variable or print statement in your script''))"
  by (simp add: parse_eval re_eval)

text \<open>
  C10. When analysis succeeds with an include list, that list is the value of the last
  \<open>include\<close> annotation split at its commas (the entries contain no comma and,
  joined by commas, give the value back: nothing is trimmed); a script variable found
  by the pattern is declared if and only if its name is an entry of the list; and
  \<open>@printf\<close> is declared only if \<open>@printf\<close> is an entry.
\<close>

theorem include_filters_by_exact_name:
  "parse_script s = Inr (md, defs, s') \<and> md_include md = Some incl \<longrightarrow>
     ((var, key, func) \<in> set (findall3 variables_re s) \<longrightarrow>
        (var \<in> fst ` set defs \<longleftrightarrow> var \<in> set incl))
     \<and> (''@printf'' \<in> fst ` set defs \<longrightarrow> ''@printf'' \<in> set incl)
     \<and> include_values (findall2 metadata_re s) \<noteq> []
     \<and> incl = split_on CHR '','' (last (include_values (findall2 metadata_re s)))
     \<and> str_join '','' incl = last (include_values (findall2 metadata_re s))
     \<and> list_all (\<lambda>entry. CHR '','' \<notin> set entry) incl"
proof (intro impI, elim conjE)
  assume p: "parse_script s = Inr (md, defs, s')" and i: "md_include md = Some incl"
  from p have md: "parse_metadata \<lparr>md_name = None, md_include = None\<rparr> (findall2 metadata_re s) = Inr md"
    and d: "declarations md s = (defs, s')"
    by (simp_all add: parse_script_Inr)
  have ex: "\<And>v. excluded md v \<longleftrightarrow> v \<notin> set incl"
    using i by (simp add: excluded_def)
  have inc: "include_values (findall2 metadata_re s) \<noteq> []"
    "incl = split_on CHR '','' (last (include_values (findall2 metadata_re s)))"
    using parse_metadata_include [OF md] i by (auto split: if_splits)
  have a: "(var, key, func) \<in> set (findall3 variables_re s) \<longrightarrow>
        (var \<in> fst ` set defs \<longleftrightarrow> var \<in> set incl)"
  proof
    assume v: "(var, key, func) \<in> set (findall3 variables_re s)"
    then have ne: "findall3 variables_re s \<noteq> []" by auto
    note kd = keys_declarations [OF ne, of md, unfolded d fst_conv snd_conv]
    have kv: "var \<in> set (kept_vars md s) \<longleftrightarrow> var \<in> set incl"
      using v ex by (force simp: kept_vars_def set_first_occ)
    show "var \<in> fst ` set defs \<longleftrightarrow> var \<in> set incl"
    proof
      assume "var \<in> fst ` set defs"
      with kd(3) have "var = ''@printf'' \<or> var \<in> set (kept_vars md s)" by auto
      then show "var \<in> set incl"
      proof
        assume e: "var = ''@printf''"
        with \<open>var \<in> fst ` set defs\<close> have "\<not> excluded md ''@printf''"
          using kd(4) by simp
        with e ex show ?thesis by simp
      next
        assume "var \<in> set (kept_vars md s)"
        with kv show ?thesis by simp
      qed
    next
      assume "var \<in> set incl"
      with kv kd(2) show "var \<in> fst ` set defs" by auto
    qed
  qed
  have b: "''@printf'' \<in> fst ` set defs \<longrightarrow> ''@printf'' \<in> set incl"
  proof
    assume in_defs: "''@printf'' \<in> fst ` set defs"
    show "''@printf'' \<in> set incl"
    proof (cases "findall3 variables_re s = []")
      case True
      with d in_defs ex show ?thesis
        by (auto simp: declarations_def Let_def keys_update_subset split: if_splits)
    next
      case False
      from keys_declarations(4) [OF False, of md] d in_defs ex show ?thesis by simp
    qed
  qed
  from a b inc show "((var, key, func) \<in> set (findall3 variables_re s) \<longrightarrow>
        (var \<in> fst ` set defs \<longleftrightarrow> var \<in> set incl))
     \<and> (''@printf'' \<in> fst ` set defs \<longrightarrow> ''@printf'' \<in> set incl)
     \<and> include_values (findall2 metadata_re s) \<noteq> []
     \<and> incl = split_on CHR '','' (last (include_values (findall2 metadata_re s)))
     \<and> str_join '','' incl = last (include_values (findall2 metadata_re s))
     \<and> list_all (\<lambda>entry. CHR '','' \<notin> set entry) incl"
    using join_split_on [of "CHR '',''"] split_on_no_sep [of "CHR '',''"] by simp
qed

theorem include_filters_by_exact_name_witness:
  "parse_script ''// include: @x, @y\<newline>@x = 1; @y = 2;''
     = Inr (\<lparr>md_name = None, md_include = Some [''@x'', '' @y'']\<rparr>,
            [(''@x'', \<lparr>single = True, semantics = PM_SEM_INSTANT, data_type = PM_TYPE_U64\<rparr>)],
            ''// include: @x, @y\<newline>@x = 1; @y = 2; interval:s:1 { print(@x); }'')
   \<and> (''@y'', [], []) \<in> set (findall3 variables_re ''// include: @x, @y\<newline>@x = 1; @y = 2;'')
   \<and> ''@y'' \<notin> set [''@x'', '' @y'']
   \<and> ''@y'' \<notin> fst ` set [(''@x'', \<lparr>single = True, semantics = PM_SEM_INSTANT,
                                      data_type = PM_TYPE_U64\<rparr>)]
   \<and> str_join '','' [''@x'', '' @y''] = ''@x, @y''"
  using include_filters_by_exact_name [of "''// include: @x, @y\<newline>@x = 1; @y = 2;''"
      "\<lparr>md_name = None, md_include = Some [''@x'', '' @y'']\<rparr>"
      "[(''@x'', \<lparr>single = True, semantics = PM_SEM_INSTANT, data_type = PM_TYPE_U64\<rparr>)]"
      "''// include: @x, @y\<newline>@x = 1; @y = 2; interval:s:1 { print(@x); }''"
      "[''@x'', '' @y'']" "''@y''" "[]" "[]"]
  by (simp add: parse_eval re_eval)

subsection \<open>The name pattern\<close>

lemma star_greedy_to_end:
  assumes "\<not> P (CHR 0x0A)" and "length xs \<le> n"
  shows "star_greedy (match_re (Chr P)) n (prev, xs) c at_end \<noteq> None
     \<longleftrightarrow> (\<exists>ws. (xs = ws \<or> xs = ws @ [CHR 0x0A]) \<and> list_all P ws)"
  using assms(2)
proof (induction xs arbitrary: n prev)
  case Nil
  then show ?case by (cases n) (auto simp: at_end_def)
next
  case (Cons x xs)
  then obtain n' where n: "n = Suc n'" "length xs \<le> n'" by (cases n) auto
  note ih = Cons.IH [OF n(2), of "Some x"]
  show ?case
  proof (cases "P x")
    case True
    with assms(1) have nx: "x \<noteq> CHR 0x0A" by auto
    have "star_greedy (match_re (Chr P)) n (prev, x # xs) c at_end \<noteq> None
      \<longleftrightarrow> star_greedy (match_re (Chr P)) n' (Some x, xs) c at_end \<noteq> None"
      using True nx by (auto simp: n(1) at_end_def split: option.splits)
    also have "\<dots> \<longleftrightarrow> (\<exists>ws. (xs = ws \<or> xs = ws @ [CHR 0x0A]) \<and> list_all P ws)"
      by (rule ih)
    also have "\<dots> \<longleftrightarrow> (\<exists>ws. (x # xs = ws \<or> x # xs = ws @ [CHR 0x0A]) \<and> list_all P ws)"
    proof
      assume "\<exists>ws. (xs = ws \<or> xs = ws @ [CHR 0x0A]) \<and> list_all P ws"
      then obtain ws where "(xs = ws \<or> xs = ws @ [CHR 0x0A]) \<and> list_all P ws" ..
      with True have "(x # xs = x # ws \<or> x # xs = (x # ws) @ [CHR 0x0A]) \<and> list_all P (x # ws)"
        by auto
      then show "\<exists>ws. (x # xs = ws \<or> x # xs = ws @ [CHR 0x0A]) \<and> list_all P ws" ..
    next
      assume "\<exists>ws. (x # xs = ws \<or> x # xs = ws @ [CHR 0x0A]) \<and> list_all P ws"
      then obtain ws where w: "x # xs = ws \<or> x # xs = ws @ [CHR 0x0A]" "list_all P ws" by blast
      from w nx obtain ws' where "ws = x # ws'" by (cases ws) auto
      with w have "(xs = ws' \<or> xs = ws' @ [CHR 0x0A]) \<and> list_all P ws'" by auto
      then show "\<exists>ws. (xs = ws \<or> xs = ws @ [CHR 0x0A]) \<and> list_all P ws" ..
    qed
    finally show ?thesis .
  next
    case False
    have "star_greedy (match_re (Chr P)) n (prev, x # xs) c at_end \<noteq> None
      \<longleftrightarrow> x = CHR 0x0A \<and> xs = []"
      using False by (auto simp: n(1) at_end_def)
    also have "\<dots> \<longleftrightarrow> (\<exists>ws. (x # xs = ws \<or> x # xs = ws @ [CHR 0x0A]) \<and> list_all P ws)"
    proof
      assume "x = CHR 0x0A \<and> xs = []"
      then have "(x # xs = [] \<or> x # xs = [] @ [CHR 0x0A]) \<and> list_all P []" by simp
      then show "\<exists>ws. (x # xs = ws \<or> x # xs = ws @ [CHR 0x0A]) \<and> list_all P ws" ..
    next
      assume "\<exists>ws. (x # xs = ws \<or> x # xs = ws @ [CHR 0x0A]) \<and> list_all P ws"
      then obtain ws where w: "x # xs = ws \<or> x # xs = ws @ [CHR 0x0A]" "list_all P ws" by blast
      with False have "ws = []" by (cases ws) auto
      with w show "x = CHR 0x0A \<and> xs = []" by simp
    qed
    finally show ?thesis .
  qed
qed

lemma not_word_newline: "\<not> is_word (CHR 0x0A)"
  by (simp add: is_word_def is_alnum_def ord_def)

lemma name_re_unfold:
  "match_at name_re (None, v) =
     (case v of
        [] \<Rightarrow> None
      | c # cs \<Rightarrow>
          if is_name_start c then
            (case cs of
               [] \<Rightarrow> None
             | d # ds \<Rightarrow>
                 if is_word d
                 then star_greedy (match_re (Chr is_word)) (length ds) (Some d, ds) (\<lambda>n. None) at_end
                 else None)
          else None)"
proof -
  have e: "(\<lambda>p' c'. if snd p' = [] \<or> snd p' = [CHR 0x0A] then Some (p', c') else None) = at_end"
    by (simp add: at_end_def fun_eq_iff)
  show ?thesis
    by (simp add: match_at_def name_re_def seqs_def plus_def e split: list.splits)
qed

lemma re_match_name_re:
  "re_match name_re v \<longleftrightarrow>
     (\<exists>c cs. (v = c # cs \<or> v = c # cs @ [CHR 0x0A])
        \<and> is_name_start c \<and> cs \<noteq> [] \<and> list_all is_word cs)"
proof (cases v)
  case Nil
  then show ?thesis by (simp add: re_match_def name_re_unfold)
next
  case (Cons c cs)
  note v = this
  show ?thesis
  proof (cases cs)
    case Nil
    with v show ?thesis by (auto simp: re_match_def name_re_unfold)
  next
    case (Cons d ds)
    show ?thesis
    proof (cases "is_name_start c \<and> is_word d")
      case False
      with v Cons not_word_newline show ?thesis
        by (auto simp: re_match_def name_re_unfold Cons_eq_append_conv)
    next
      case True
      have "re_match name_re v \<longleftrightarrow>
          (\<exists>ws. (ds = ws \<or> ds = ws @ [CHR 0x0A]) \<and> list_all is_word ws)"
        using True v Cons star_greedy_to_end [where P = is_word and xs = ds and n = "length ds" and prev = "Some d",
              OF not_word_newline order_refl]
        by (simp add: re_match_def name_re_unfold)
      also have "\<dots> \<longleftrightarrow> (\<exists>c' cs'. (v = c' # cs' \<or> v = c' # cs' @ [CHR 0x0A])
        \<and> is_name_start c' \<and> cs' \<noteq> [] \<and> list_all is_word cs')"
      proof
        assume "\<exists>ws. (ds = ws \<or> ds = ws @ [CHR 0x0A]) \<and> list_all is_word ws"
        then obtain ws where "(ds = ws \<or> ds = ws @ [CHR 0x0A]) \<and> list_all is_word ws" ..
        with True v Cons
        have "(v = c # (d # ws) \<or> v = c # (d # ws) @ [CHR 0x0A])
          \<and> is_name_start c \<and> d # ws \<noteq> [] \<and> list_all is_word (d # ws)"
          by auto
        then show "\<exists>c' cs'. (v = c' # cs' \<or> v = c' # cs' @ [CHR 0x0A])
          \<and> is_name_start c' \<and> cs' \<noteq> [] \<and> list_all is_word cs'" by blast
      next
        assume "\<exists>c' cs'. (v = c' # cs' \<or> v = c' # cs' @ [CHR 0x0A])
          \<and> is_name_start c' \<and> cs' \<noteq> [] \<and> list_all is_word cs'"
        then obtain c' cs' where w: "v = c' # cs' \<or> v = c' # cs' @ [CHR 0x0A]"
          "cs' \<noteq> []" "list_all is_word cs'" by blast
        then obtain d' ws where cs': "cs' = d' # ws" by (cases cs') auto
        with w v Cons have "(ds = ws \<or> ds = ws @ [CHR 0x0A]) \<and> list_all is_word ws" by auto
        then show "\<exists>ws. (ds = ws \<or> ds = ws @ [CHR 0x0A]) \<and> list_all is_word ws" ..
      qed
      finally show ?thesis .
    qed
  qed
qed

subsection \<open>When analysis fails\<close>

lemma parse_metadata_Inl_iff:
  "(\<exists>e. parse_metadata md0 metas = Inl e)
     \<longleftrightarrow> (\<exists>v. (''name'', v) \<in> set metas \<and> \<not> re_match name_re v)"
  by (induction md0 metas rule: parse_metadata.induct) auto

lemma parse_script_Inl_iff:
  "(\<exists>e. parse_script s = Inl e) \<longleftrightarrow>
     (\<exists>e. parse_metadata \<lparr>md_name = None, md_include = None\<rparr> (findall2 metadata_re s) = Inl e)
     \<or> (\<exists>md. parse_metadata \<lparr>md_name = None, md_include = None\<rparr> (findall2 metadata_re s) = Inr md
             \<and> fst (declarations md s) = [])"
  by (auto simp: parse_script_def split: sum.splits prod.splits)

lemma first_occ_Nil_iff: "first_occ xs = [] \<longleftrightarrow> xs = []"
  by (cases xs) simp_all

lemma kept_vars_Nil_iff:
  "kept_vars md s = [] \<longleftrightarrow> list_all (\<lambda>v. excluded md (fst v)) (findall3 variables_re s)"
  by (simp add: kept_vars_def first_occ_Nil_iff filter_empty_conv list_all_iff)

lemma script_of_declarations:
  "snd (declarations md s) =
     (if findall3 variables_re s = [] then s else s @ interval_clause (kept_vars md s))"
  by (simp add: declarations_def Let_def keys_collect_vars_empty)

lemma vars_of_declarations:
  "fst (declarations md s) =
     (let defs = (if findall3 variables_re s = [] then []
                  else collect_vars md [] (findall3 variables_re s))
      in if re_search printf_re (snd (declarations md s)) \<and> \<not> excluded md ''@printf''
         then AList.update ''@printf''
                \<lparr>single = True, semantics = PM_SEM_INSTANT, data_type = PM_TYPE_STRING\<rparr> defs
         else defs)"
  by (simp add: declarations_def Let_def)

lemma update_not_Nil: "AList.update k v al \<noteq> []"
  by (cases al) auto

lemma declarations_Nil_iff:
  "fst (declarations md s) = [] \<longleftrightarrow>
     kept_vars md s = []
     \<and> \<not> (re_search printf_re (snd (declarations md s)) \<and> \<not> excluded md ''@printf'')"
proof -
  let ?defs = "if findall3 variables_re s = [] then []
               else collect_vars md [] (findall3 variables_re s)"
  have "map fst ?defs = kept_vars md s"
    by (simp add: keys_collect_vars_empty kept_vars_def)
  then have d: "?defs = [] \<longleftrightarrow> kept_vars md s = []"
    by (metis map_is_Nil_conv)
  show ?thesis
    unfolding vars_of_declarations Let_def using d
    by (simp add: update_not_Nil)
qed

lemma printf_declared:
  "re_search printf_re (snd (declarations md s)) \<and> \<not> excluded md ''@printf'' \<Longrightarrow>
   map_of (fst (declarations md s)) ''@printf''
     = Some \<lparr>single = True, semantics = PM_SEM_INSTANT, data_type = PM_TYPE_STRING\<rparr>"
  unfolding vars_of_declarations Let_def by (simp add: update_conv')

text \<open>
  C8 (amended). Analysis raises if and only if some \<open>name\<close> annotation has a value
  that \<open>re.match\<close> does not accept for \<^verbatim>\<open>^[a-zA-Z_]\w+$\<close>, or the annotations are
  accepted and the resulting declaration set is empty; otherwise it returns the
  metadata, a non-empty declaration set and the rewritten script.  The declaration
  set is empty exactly when the include list keeps no recognized metric declaration
  (every script variable found by the pattern is excluded) and no print statement is
  kept (the pattern \<^verbatim>\<open>printf\s*\(\<close> is not found in the script after rewriting, or
  \<open>@printf\<close> is excluded); a print statement that is kept declares \<open>@printf\<close> as a
  scalar INSTANT string.  Without an include annotation this is: no recognized metric
  declaration and no print statement in the script.  The name pattern accepts exactly
  a character of \<open>[a-zA-Z_]\<close> followed by one or more word characters of Unicode
  (letters and digits beyond ASCII included), with or without a newline at the very
  end.
\<close>

theorem parse_script_fails_iff:
  "((\<exists>e. parse_script s = Inl e) \<longleftrightarrow>
      (\<exists>v. (''name'', v) \<in> set (findall2 metadata_re s) \<and> \<not> re_match name_re v)
      \<or> (\<exists>md. parse_metadata \<lparr>md_name = None, md_include = None\<rparr> (findall2 metadata_re s) = Inr md
              \<and> kept_vars md s = []
              \<and> \<not> (re_search printf_re (snd (declarations md s)) \<and> \<not> excluded md ''@printf'')))
   \<and> (fst (declarations md s) = [] \<longleftrightarrow>
        kept_vars md s = []
        \<and> \<not> (re_search printf_re (snd (declarations md s)) \<and> \<not> excluded md ''@printf''))
   \<and> (kept_vars md s = [] \<longleftrightarrow>
        list_all (\<lambda>v. excluded md (fst v)) (findall3 variables_re s))
   \<and> snd (declarations md s)
        = (if findall3 variables_re s = [] then s else s @ interval_clause (kept_vars md s))
   \<and> (re_search printf_re (snd (declarations md s)) \<and> \<not> excluded md ''@printf'' \<longrightarrow>
        map_of (fst (declarations md s)) ''@printf''
          = Some \<lparr>single = True, semantics = PM_SEM_INSTANT, data_type = PM_TYPE_STRING\<rparr>)
   \<and> (md_include md = None \<longrightarrow>
        (fst (declarations md s) = [] \<longleftrightarrow>
           findall3 variables_re s = [] \<and> \<not> re_search printf_re s))
   \<and> (re_match name_re v \<longleftrightarrow>
        (\<exists>c cs. (v = c # cs \<or> v = c # cs @ [CHR 0x0A])
           \<and> is_name_start c \<and> cs \<noteq> [] \<and> list_all is_word cs))
   \<and> ((\<exists>e. parse_script s = Inl e)
       \<or> (\<exists>md defs s'. parse_script s = Inr (md, defs, s') \<and> defs \<noteq> []
             \<and> declarations md s = (defs, s')))"
proof (intro conjI)
  show "(\<exists>e. parse_script s = Inl e) \<longleftrightarrow>
      (\<exists>v. (''name'', v) \<in> set (findall2 metadata_re s) \<and> \<not> re_match name_re v)
      \<or> (\<exists>md. parse_metadata \<lparr>md_name = None, md_include = None\<rparr> (findall2 metadata_re s) = Inr md
              \<and> kept_vars md s = []
              \<and> \<not> (re_search printf_re (snd (declarations md s)) \<and> \<not> excluded md ''@printf''))"
    unfolding parse_script_Inl_iff parse_metadata_Inl_iff declarations_Nil_iff ..
  show "fst (declarations md s) = [] \<longleftrightarrow>
        kept_vars md s = []
        \<and> \<not> (re_search printf_re (snd (declarations md s)) \<and> \<not> excluded md ''@printf'')"
    by (rule declarations_Nil_iff)
  show "kept_vars md s = [] \<longleftrightarrow>
        list_all (\<lambda>v. excluded md (fst v)) (findall3 variables_re s)"
    by (rule kept_vars_Nil_iff)
  show "snd (declarations md s)
        = (if findall3 variables_re s = [] then s else s @ interval_clause (kept_vars md s))"
    by (rule script_of_declarations)
  show "re_search printf_re (snd (declarations md s)) \<and> \<not> excluded md ''@printf'' \<longrightarrow>
        map_of (fst (declarations md s)) ''@printf''
          = Some \<lparr>single = True, semantics = PM_SEM_INSTANT, data_type = PM_TYPE_STRING\<rparr>"
    using printf_declared by blast
  show "md_include md = None \<longrightarrow>
        (fst (declarations md s) = [] \<longleftrightarrow>
           findall3 variables_re s = [] \<and> \<not> re_search printf_re s)"
  proof
    assume n: "md_include md = None"
    then have e: "\<And>x. \<not> excluded md x" by (simp add: excluded_def)
    have k: "kept_vars md s = [] \<longleftrightarrow> findall3 variables_re s = []"
      unfolding kept_vars_Nil_iff using e by (cases "findall3 variables_re s") simp_all
    show "fst (declarations md s) = [] \<longleftrightarrow>
           findall3 variables_re s = [] \<and> \<not> re_search printf_re s"
      unfolding declarations_Nil_iff k using e
      by (auto simp: script_of_declarations)
  qed
  show "re_match name_re v \<longleftrightarrow>
        (\<exists>c cs. (v = c # cs \<or> v = c # cs @ [CHR 0x0A])
           \<and> is_name_start c \<and> cs \<noteq> [] \<and> list_all is_word cs)"
    by (rule re_match_name_re)
  show "(\<exists>e. parse_script s = Inl e)
       \<or> (\<exists>md defs s'. parse_script s = Inr (md, defs, s') \<and> defs \<noteq> []
             \<and> declarations md s = (defs, s'))"
  proof (cases "parse_script s")
    case (Inl e)
    then show ?thesis by blast
  next
    case (Inr r)
    then obtain md defs s' where "parse_script s = Inr (md, defs, s')" by (cases r) auto
    then show ?thesis using parse_script_Inr by blast
  qed
qed

theorem parse_script_fails_iff_witness:
  "(''name'', ''a'') \<in> set (findall2 metadata_re ''// name: a\<newline>@x = 1'')
   \<and> \<not> re_match name_re ''a''
   \<and> (\<exists>e. parse_script ''// name: a\<newline>@x = 1'' = Inl e)
   \<and> re_match name_re ''ab''
   \<and> (\<exists>md defs s'. parse_script ''// name: ab\<newline>@x = 1'' = Inr (md, defs, s') \<and> defs \<noteq> [])
   \<and> md_include \<lparr>md_name = None, md_include = None\<rparr> = None
   \<and> re_search printf_re ''printf(1);''
   \<and> \<not> excluded \<lparr>md_name = None, md_include = None\<rparr> ''@printf''
   \<and> fst (declarations \<lparr>md_name = None, md_include = None\<rparr> ''printf(1);'')
       = [(''@printf'', \<lparr>single = True, semantics = PM_SEM_INSTANT, data_type = PM_TYPE_STRING\<rparr>)]
   \<and> parse_script ''printf(1);''
       = Inr (\<lparr>md_name = None, md_include = None\<rparr>,
              [(''@printf'', \<lparr>single = True, semantics = PM_SEM_INSTANT,
                               data_type = PM_TYPE_STRING\<rparr>)],
              ''printf(1);'')
   \<and> findall3 variables_re ''print(1);'' = []
   \<and> \<not> re_search printf_re ''print(1);''
   \<and> (\<exists>e. parse_script ''print(1);'' = Inl e)"
  using parse_script_fails_iff [of "''// name: a\<newline>@x = 1''" "\<lparr>md_name = None, md_include = None\<rparr>" "''a''"]
    parse_script_fails_iff [of "''// name: ab\<newline>@x = 1''" "\<lparr>md_name = None, md_include = None\<rparr>" "''ab''"]
    parse_script_fails_iff [of "''printf(1);''" "\<lparr>md_name = None, md_include = None\<rparr>" "''ab''"]
    parse_script_fails_iff [of "''print(1);''" "\<lparr>md_name = None, md_include = None\<rparr>" "''ab''"]
  by (simp add: parse_eval re_eval)

text \<open>
  The claim as stated fails twice.  The name \<open>a\<close> followed by the letter with code
  point 233 does not match \<^verbatim>\<open>[a-zA-Z_][A-Za-z0-9_]+\<close>, and analysis accepts it.  And
  a script with a recognized metric declaration and a print statement, both excluded
  by its include list, has an empty declaration set and analysis raises.
\<close>

theorem non_ascii_name_is_accepted:
  "findall2 metadata_re (''// name: a'' @ [CHR 0xE9, CHR 0x0A] @ ''@x = 1'')
     = [(''name'', [CHR ''a'', CHR 0xE9])]
   \<and> \<not> spec_name_ok [CHR ''a'', CHR 0xE9]
   \<and> parse_script (''// name: a'' @ [CHR 0xE9, CHR 0x0A] @ ''@x = 1'')
       = Inr (\<lparr>md_name = Some [CHR ''a'', CHR 0xE9], md_include = None\<rparr>,
              [(''@x'', \<lparr>single = True, semantics = PM_SEM_INSTANT, data_type = PM_TYPE_U64\<rparr>)],
              ''// name: a'' @ [CHR 0xE9, CHR 0x0A] @ ''@x = 1 interval:s:1 { print(@x); }'')
   \<and> findall2 metadata_re ''// include: @y\<newline>@x = 1; printf(1);'' = [(''include'', ''@y'')]
   \<and> findall3 variables_re ''// include: @y\<newline>@x = 1; printf(1);'' = [(''@x'', [], [])]
   \<and> re_search printf_re ''// include: @y\<newline>@x = 1; printf(1);''
   \<and> parse_script ''// include: @y\<newline>@x = 1; printf(1);''
       = Inl (BPFtraceError (''no bpftrace variables or printf statements found, please ''
                @ ''include at least one variable or print statement in your script''))"
  by (simp add: parse_eval re_eval spec_name_ok_def is_ascii_word_def)

section \<open>Snapshots\<close>

lemma deepcopy_props:
  "n \<le> snd (deepcopy n v) \<and> set (addrs (fst (deepcopy n v))) \<subseteq> {n..<snd (deepcopy n v)}
     \<and> erase (fst (deepcopy n v)) = erase v"
  "n \<le> snd (deepcopy_list n xs)
     \<and> set (concat (map addrs (fst (deepcopy_list n xs)))) \<subseteq> {n..<snd (deepcopy_list n xs)}
     \<and> map erase (fst (deepcopy_list n xs)) = map erase xs"
  "n \<le> snd (deepcopy_items n kvs)
     \<and> set (concat (map (\<lambda>kv. addrs (snd kv)) (fst (deepcopy_items n kvs))))
           \<subseteq> {n..<snd (deepcopy_items n kvs)}
     \<and> map (\<lambda>kv. (fst kv, erase (snd kv))) (fst (deepcopy_items n kvs))
         = map (\<lambda>kv. (fst kv, erase (snd kv))) kvs"
proof (induction n v and n xs and n kvs rule: deepcopy_deepcopy_list_deepcopy_items.induct)
  case (1 n a xs)
  obtain ys n' where c: "deepcopy_list (Suc n) xs = (ys, n')" by (cases "deepcopy_list (Suc n) xs")
  with 1 have "Suc n \<le> n'" "set (concat (map addrs ys)) \<subseteq> {Suc n..<n'}"
    "map erase ys = map erase xs" by auto
  moreover from this have "set (concat (map addrs ys)) \<subseteq> {n..<n'}" by fastforce
  ultimately show ?case by (simp add: c)
next
  case (2 n a kvs)
  obtain ys n' where c: "deepcopy_items (Suc n) kvs = (ys, n')" by (cases "deepcopy_items (Suc n) kvs")
  with 2 have "Suc n \<le> n'" "set (concat (map (\<lambda>kv. addrs (snd kv)) ys)) \<subseteq> {Suc n..<n'}"
    "map (\<lambda>kv. (fst kv, erase (snd kv))) ys = map (\<lambda>kv. (fst kv, erase (snd kv))) kvs" by auto
  moreover from this have "set (concat (map (\<lambda>kv. addrs (snd kv)) ys)) \<subseteq> {n..<n'}" by fastforce
  ultimately show ?case by (simp add: c)
next
  case (8 n x xs)
  then show ?case by (fastforce split: prod.splits)
next
  case (10 n k v kvs)
  then show ?case by (fastforce split: prod.splits)
qed simp_all

lemma deepcopy_maps_props:
  "n \<le> snd (deepcopy_maps n kvs)
     \<and> set (concat (map (\<lambda>kv. addrs (snd kv)) (fst (deepcopy_maps n kvs))))
           \<subseteq> {n..<snd (deepcopy_maps n kvs)}
     \<and> map (\<lambda>kv. (fst kv, erase (snd kv))) (fst (deepcopy_maps n kvs))
         = map (\<lambda>kv. (fst kv, erase (snd kv))) kvs"
proof (induction n kvs rule: deepcopy_maps.induct)
  case (1 n)
  then show ?case by simp
next
  case (2 n k v kvs)
  obtain v' n1 where v: "deepcopy n v = (v', n1)" by (cases "deepcopy n v")
  obtain kvs' n2 where k: "deepcopy_maps n1 kvs = (kvs', n2)" by (cases "deepcopy_maps n1 kvs")
  from deepcopy_props(1) [of n v] v
  have a: "n \<le> n1" "set (addrs v') \<subseteq> {n..<n1}" "erase v' = erase v" by auto
  from 2 [OF v [symmetric]] k
  have b: "n1 \<le> n2" "set (concat (map (\<lambda>kv. addrs (snd kv)) kvs')) \<subseteq> {n1..<n2}"
    "map (\<lambda>kv. (fst kv, erase (snd kv))) kvs' = map (\<lambda>kv. (fst kv, erase (snd kv))) kvs"
    by auto
  show ?case
    using a b by (auto simp: v k)
qed

lemma assign_fresh: "a \<notin> set (addrs v) \<Longrightarrow> assign a new v = v"
  by (induction a new v rule: assign.induct) (auto simp: map_idI)


lemma state_props:
  assumes "state n st = (snap, n')"
  shows "n < n'" and "set (state_addrs snap) \<subseteq> {n..<n'}" and "erase_state snap = erase_state st"
proof -
  obtain p n1 where p: "deepcopy (Suc n) (o_probes st) = (p, n1)"
    by (cases "deepcopy (Suc n) (o_probes st)")
  obtain m n2 where m: "deepcopy_maps (Suc n1) (o_maps st) = (m, n2)"
    by (cases "deepcopy_maps (Suc n1) (o_maps st)")
  from assms p m have snap: "snap = st\<lparr>obj_addr := n, o_probes := p, o_maps_addr := n1, o_maps := m\<rparr>"
    and n': "n' = n2"
    by (simp_all add: state_def)
  from deepcopy_props(1) [of "Suc n" "o_probes st"] p
  have a: "Suc n \<le> n1" "set (addrs p) \<subseteq> {Suc n..<n1}" "erase p = erase (o_probes st)" by auto
  from deepcopy_maps_props [of "Suc n1" "o_maps st"] m
  have b: "Suc n1 \<le> n2" "set (concat (map (\<lambda>kv. addrs (snd kv)) m)) \<subseteq> {Suc n1..<n2}"
    "map (\<lambda>kv. (fst kv, erase (snd kv))) m = map (\<lambda>kv. (fst kv, erase (snd kv))) (o_maps st)"
    by auto
  show "n < n'" using a(1) b(1) n' by simp
  have "set (addrs p) \<subseteq> {n..<n2}" using a(1,2) b(1) by fastforce
  moreover have "set (concat (map (\<lambda>kv. addrs (snd kv)) m)) \<subseteq> {n..<n2}"
    using a(1) b(1,2) by fastforce
  ultimately show "set (state_addrs snap) \<subseteq> {n..<n'}"
    using a(1) b(1) by (simp add: state_addrs_def snap n')
  show "erase_state snap = erase_state st"
    using a(3) b(3) by (simp add: erase_state_def snap)
qed

lemma apply_mutation_frame:
  "mutated mu \<notin> set (state_addrs st) \<Longrightarrow> apply_mutation mu st = st"
proof (cases mu)
  case (SetObj a new)
  assume "mutated mu \<notin> set (state_addrs st)"
  with SetObj have p: "a \<notin> set (addrs (o_probes st))"
    and m: "\<And>kv. kv \<in> set (o_maps st) \<Longrightarrow> a \<notin> set (addrs (snd kv))"
    by (auto simp: state_addrs_def)
  have "map (\<lambda>kv. (fst kv, assign a new (snd kv))) (o_maps st) = o_maps st"
    using m by (simp add: assign_fresh map_idI)
  with p SetObj show ?thesis by (simp add: assign_fresh)
qed (auto simp: state_addrs_def)

text \<open>
  C9. \<open>state()\<close> returns a state with the contents of the live state, all of whose
  objects (the state object, \<open>maps\<close> and every nested list and dictionary, such as
  the bucket maps) are new.  Hence a mutation of an object that is not part of the
  snapshot, in particular of any object of the live state, leaves the snapshot as it
  was; a mutation of an object of the snapshot leaves the live state as it was; and
  two snapshots share no object, so that mutating one leaves the other as it was.
\<close>

theorem snapshot_is_independent:
  "state n live = (snap, n') \<longrightarrow>
     erase_state snap = erase_state live
     \<and> set (state_addrs snap) \<subseteq> {n..<n'}
     \<and> (mutated mu \<notin> set (state_addrs snap) \<longrightarrow> apply_mutation mu snap = snap)
     \<and> (list_all (\<lambda>a. a < n) (state_addrs live) \<longrightarrow>
          set (state_addrs snap) \<inter> set (state_addrs live) = {}
          \<and> (mutated mu \<in> set (state_addrs live) \<longrightarrow> apply_mutation mu snap = snap)
          \<and> (mutated mu \<in> set (state_addrs snap) \<longrightarrow> apply_mutation mu live = live))
     \<and> (n' \<le> m \<and> state m live2 = (snap2, m') \<longrightarrow>
          set (state_addrs snap) \<inter> set (state_addrs snap2) = {}
          \<and> (mutated mu \<in> set (state_addrs snap) \<longrightarrow> apply_mutation mu snap2 = snap2)
          \<and> (mutated mu \<in> set (state_addrs snap2) \<longrightarrow> apply_mutation mu snap = snap))"
proof (intro impI)
  assume s: "state n live = (snap, n')"
  note sp = state_props [OF s]
  have frame: "mutated mu \<notin> set (state_addrs snap) \<longrightarrow> apply_mutation mu snap = snap"
    using apply_mutation_frame by blast
  have old: "list_all (\<lambda>a. a < n) (state_addrs live) \<longrightarrow>
          set (state_addrs snap) \<inter> set (state_addrs live) = {}
          \<and> (mutated mu \<in> set (state_addrs live) \<longrightarrow> apply_mutation mu snap = snap)
          \<and> (mutated mu \<in> set (state_addrs snap) \<longrightarrow> apply_mutation mu live = live)"
  proof
    assume "list_all (\<lambda>a. a < n) (state_addrs live)"
    then have lt: "\<And>a. a \<in> set (state_addrs live) \<Longrightarrow> a < n" by (simp add: list_all_iff)
    have d: "set (state_addrs snap) \<inter> set (state_addrs live) = {}"
      using lt sp(2) by fastforce
    then show "set (state_addrs snap) \<inter> set (state_addrs live) = {}
          \<and> (mutated mu \<in> set (state_addrs live) \<longrightarrow> apply_mutation mu snap = snap)
          \<and> (mutated mu \<in> set (state_addrs snap) \<longrightarrow> apply_mutation mu live = live)"
      using apply_mutation_frame [of mu snap] apply_mutation_frame [of mu live] by blast
  qed
  have two: "n' \<le> m \<and> state m live2 = (snap2, m') \<longrightarrow>
          set (state_addrs snap) \<inter> set (state_addrs snap2) = {}
          \<and> (mutated mu \<in> set (state_addrs snap) \<longrightarrow> apply_mutation mu snap2 = snap2)
          \<and> (mutated mu \<in> set (state_addrs snap2) \<longrightarrow> apply_mutation mu snap = snap)"
  proof
    assume a: "n' \<le> m \<and> state m live2 = (snap2, m')"
    then have "set (state_addrs snap2) \<subseteq> {m..<m'}" using state_props(2) by blast
    with a sp(2) have d: "set (state_addrs snap) \<inter> set (state_addrs snap2) = {}"
      by fastforce
    then show "set (state_addrs snap) \<inter> set (state_addrs snap2) = {}
          \<and> (mutated mu \<in> set (state_addrs snap) \<longrightarrow> apply_mutation mu snap2 = snap2)
          \<and> (mutated mu \<in> set (state_addrs snap2) \<longrightarrow> apply_mutation mu snap = snap)"
      using apply_mutation_frame [of mu snap] apply_mutation_frame [of mu snap2] by blast
  qed
  from sp(2,3) frame old two
  show "erase_state snap = erase_state live
     \<and> set (state_addrs snap) \<subseteq> {n..<n'}
     \<and> (mutated mu \<notin> set (state_addrs snap) \<longrightarrow> apply_mutation mu snap = snap)
     \<and> (list_all (\<lambda>a. a < n) (state_addrs live) \<longrightarrow>
          set (state_addrs snap) \<inter> set (state_addrs live) = {}
          \<and> (mutated mu \<in> set (state_addrs live) \<longrightarrow> apply_mutation mu snap = snap)
          \<and> (mutated mu \<in> set (state_addrs snap) \<longrightarrow> apply_mutation mu live = live))
     \<and> (n' \<le> m \<and> state m live2 = (snap2, m') \<longrightarrow>
          set (state_addrs snap) \<inter> set (state_addrs snap2) = {}
          \<and> (mutated mu \<in> set (state_addrs snap) \<longrightarrow> apply_mutation mu snap2 = snap2)
          \<and> (mutated mu \<in> set (state_addrs snap2) \<longrightarrow> apply_mutation mu snap = snap))"
    by blast
qed

theorem snapshot_is_independent_witness:
  "state 3 live_example = (snap_example, 6)
   \<and> list_all (\<lambda>a. a < 3) (state_addrs live_example)
   \<and> mutated (SetObj 2 (LObj 2 [(''0-10'', LInt 7)])) \<in> set (state_addrs live_example)
   \<and> apply_mutation (SetObj 2 (LObj 2 [(''0-10'', LInt 7)])) live_example \<noteq> live_example
   \<and> apply_mutation (SetObj 2 (LObj 2 [(''0-10'', LInt 7)])) snap_example = snap_example
   \<and> erase_state snap_example = erase_state live_example
   \<and> (6::nat) \<le> 6
   \<and> state 6 (apply_mutation (SetObj 2 (LObj 2 [(''0-10'', LInt 7)])) live_example)
        = (snap2_example, 9)
   \<and> mutated (SetObj 8 (LObj 8 [])) \<in> set (state_addrs snap2_example)
   \<and> apply_mutation (SetObj 8 (LObj 8 [])) snap2_example \<noteq> snap2_example
   \<and> apply_mutation (SetObj 8 (LObj 8 [])) snap_example = snap_example"
  using snapshot_is_independent [of 3 live_example snap_example 6
      "SetObj 2 (LObj 2 [(''0-10'', LInt 7)])" 6
      "apply_mutation (SetObj 2 (LObj 2 [(''0-10'', LInt 7)])) live_example" snap2_example 9]
    snapshot_is_independent [of 3 live_example snap_example 6
      "SetObj 8 (LObj 8 [])" 6
      "apply_mutation (SetObj 2 (LObj 2 [(''0-10'', LInt 7)])) live_example" snap2_example 9]
  by (simp add: state_def live_example_def snap_example_def snap2_example_def state_addrs_def
      erase_state_def)

end
